theory Spec2Isabelle
  imports Complex_Main
begin

section \<open>Strings\<close>

text \<open>Python's \<open>s.startswith(p)\<close> and \<open>sub in s\<close> on strings.\<close>

fun py_startswith :: "string \<Rightarrow> string \<Rightarrow> bool" where
  "py_startswith s [] = True"
| "py_startswith [] (p # ps) = False"
| "py_startswith (c # cs) (p # ps) = (c = p \<and> py_startswith cs ps)"

fun py_contains :: "string \<Rightarrow> string \<Rightarrow> bool" where
  "py_contains sub [] = (sub = [])"
| "py_contains sub (c # cs) = (py_startswith (c # cs) sub \<or> py_contains sub cs)"

section \<open>Type descriptors and runtime annotations\<close>

text \<open>
  The dictionaries \<open>{"kind": ...}\<close> built by \<open>parse_type_annotation\<close>, one constructor
  per value of \<open>kind\<close>, with the kind-specific fields as arguments.
\<close>

datatype type_desc =
    KNone
  | KAny
  | KPrimitive string
  | KList type_desc
  | KDict type_desc type_desc
  | KTuple "type_desc list"
  | KOptional type_desc
  | KClass string

text \<open>
  What \<open>typing.get_origin\<close> or the attribute \<open>__origin__\<close> can be: \<open>list\<close>, \<open>dict\<close>,
  \<open>tuple\<close>, \<open>type(None)\<close>, \<open>typing.Union\<close> (the origin of \<open>Union[X, Y]\<close> and
  \<open>Optional[X]\<close>), \<open>types.UnionType\<close> (the origin that Python 3.10 to 3.13 give a union
  written \<open>X | Y\<close>), or any other object. The resolver compares the origin with the
  first five only.
\<close>

datatype origin = OList | ODict | OTuple | ONoneType | OUnion | OUnionType | OOther

text \<open>
  A runtime annotation as \<open>parse_type_annotation\<close> observes it. The first eight
  constructors are the objects the function tests by identity or by \<open>isinstance\<close>:
  \<open>None\<close>, \<open>type(None)\<close>, the marker \<open>inspect.Parameter.empty\<close> (the same object as
  \<open>inspect.Signature.empty\<close>), a string, and the types \<open>str\<close>, \<open>int\<close>, \<open>float\<close>, \<open>bool\<close>.
  Every other object is \<open>Obj origin dunder args cls s\<close>:
  \<^item> \<open>origin\<close> is the result of \<open>get_origin(annotation)\<close> (\<open>None\<close> when it returns \<open>None\<close>);
  \<^item> \<open>dunder\<close> is the attribute \<open>annotation.__origin__\<close> (\<open>None\<close> when \<open>hasattr\<close> is false);
  \<^item> \<open>args\<close> is \<open>get_args(annotation)\<close>;
  \<^item> \<open>cls\<close> is \<open>Some annotation.__name__\<close> when \<open>inspect.isclass(annotation)\<close>, else \<open>None\<close>;
  \<^item> \<open>s\<close> is \<open>str(annotation)\<close>.
\<close>

datatype annotation =
    PyNone
  | NoneType
  | Empty
  | StrAnn string
  | TStr
  | TInt
  | TFloat
  | TBool
  | Obj "origin option" "origin option" "annotation list" "string option" string

text \<open>The table \<open>type_map\<close> of forward-reference names.\<close>

definition type_map :: "(string \<times> type_desc) list" where
  "type_map =
    [(''str'', KPrimitive ''str''),
     (''int'', KPrimitive ''int''),
     (''float'', KPrimitive ''float''),
     (''bool'', KPrimitive ''bool''),
     (''None'', KNone),
     (''Any'', KAny)]"

function parse_type_annotation :: "annotation \<Rightarrow> type_desc" where
  "parse_type_annotation PyNone = KNone"
| "parse_type_annotation NoneType = KNone"
| "parse_type_annotation Empty = KAny"
| "parse_type_annotation (StrAnn s) =
     (case map_of type_map s of Some d \<Rightarrow> d | None \<Rightarrow> KAny)"
| "parse_type_annotation TStr = KPrimitive ''str''"
| "parse_type_annotation TInt = KPrimitive ''int''"
| "parse_type_annotation TFloat = KPrimitive ''float''"
| "parse_type_annotation TBool = KPrimitive ''bool''"
| "parse_type_annotation (Obj origin dunder args cls s) =
     (if origin = Some OList \<or> dunder = Some OList then
        KList (case args of [] \<Rightarrow> KAny | a # _ \<Rightarrow> parse_type_annotation a)
      else if origin = Some ODict \<or> dunder = Some ODict then
        KDict (case args of [] \<Rightarrow> KAny | a # _ \<Rightarrow> parse_type_annotation a)
              (case args of _ # b # _ \<Rightarrow> parse_type_annotation b | _ \<Rightarrow> KAny)
      else if origin = Some OTuple then
        KTuple (map parse_type_annotation args)
      else if origin = Some ONoneType then KNone
      else if origin = Some OUnion then
        (case filter (\<lambda>a. a \<noteq> NoneType) args of
           [t] \<Rightarrow> if NoneType \<in> set args then KOptional (parse_type_annotation t) else KAny
         | _ \<Rightarrow> KAny)
      else
        (case cls of
           Some n \<Rightarrow> KClass n
         | None \<Rightarrow> if py_contains ''Any'' s then KAny else KAny))"
  by pat_completeness auto
termination
  apply (relation "measure size")
        apply (auto simp: less_Suc_eq_le size_list_estimation')
  apply (metis filter_is_subset list.set_intros(1) order_refl size_list_estimation' subsetD)
  done

section \<open>Descriptors\<close>

text \<open>The dictionaries the extractor builds, one record per shape, fields named as the keys.\<close>

record param_desc =
  pd_name :: string
  pd_type :: type_desc
  pd_optional :: bool
  pd_default :: "string option"

record func_desc =
  fd_name :: string
  fd_params :: "param_desc list"
  fd_returnType :: type_desc
  fd_docstring :: "string option"
  fd_isAsync :: bool
  fd_isMethod :: bool

record prop_desc =
  pr_name :: string
  pr_type :: type_desc
  pr_readonly :: bool
  pr_docstring :: "string option"

record class_desc =
  cd_name :: string
  cd_constructor :: "func_desc option"
  cd_methods :: "func_desc list"
  cd_properties :: "prop_desc list"
  cd_docstring :: "string option"
  cd_bases :: "string list"

record const_desc =
  kd_name :: string
  kd_type :: type_desc
  kd_value :: "string option"

record module_desc =
  md_name :: string
  md_path :: string
  md_functions :: "func_desc list"
  md_classes :: "class_desc list"
  md_constants :: "const_desc list"
  md_docstring :: "string option"

section \<open>Reflected objects\<close>

text \<open>
  A parameter of \<open>inspect.signature(func).parameters\<close>: its name, its raw annotation
  (\<open>Empty\<close> when there is none) and \<open>repr\<close> of its default
  (\<open>None\<close> when the default is \<open>inspect.Parameter.empty\<close>).
\<close>

record param =
  param_name :: string
  param_annotation :: annotation
  param_default :: "string option"

text \<open>
  A callable as \<open>extract_function_info\<close> observes it:
  \<^item> \<open>fn_signature\<close>: the parameters (in order) and the return annotation of
    \<open>inspect.signature(func)\<close>, \<open>None\<close> when it raises \<open>ValueError\<close> or \<open>TypeError\<close>;
  \<^item> \<open>fn_hints\<close>: the dictionary of \<open>get_type_hints(func)\<close>, \<open>None\<close> when it raises;
  \<^item> \<open>fn_doc\<close>: \<open>inspect.getdoc(func)\<close>;
  \<^item> \<open>fn_coroutine\<close>: \<open>inspect.iscoroutinefunction(func)\<close>.
\<close>

record func_obj =
  fn_signature :: "(param list \<times> annotation) option"
  fn_hints :: "(string \<times> annotation) list option"
  fn_doc :: "string option"
  fn_coroutine :: bool

text \<open>\<open>hints.get(key, default)\<close>.\<close>

definition hints_get :: "(string \<times> annotation) list \<Rightarrow> string \<Rightarrow> annotation \<Rightarrow> annotation" where
  "hints_get hints key dflt = (case map_of hints key of Some a \<Rightarrow> a | None \<Rightarrow> dflt)"

text \<open>The dictionary appended to \<open>params\<close> for one parameter.\<close>

definition param_info :: "(string \<times> annotation) list \<Rightarrow> param \<Rightarrow> param_desc" where
  "param_info hints p =
     (let param_type = hints_get hints (param_name p) (param_annotation p);
          type_info = parse_type_annotation param_type
      in \<lparr>pd_name = param_name p,
          pd_type = type_info,
          pd_optional = (param_default p \<noteq> None),
          pd_default = param_default p\<rparr>)"

text \<open>
  The loop over \<open>sig.parameters.items()\<close>: \<open>params\<close> is the list built so far,
  a parameter named \<open>self\<close> takes the \<open>continue\<close>.
\<close>

fun params_loop :: "(string \<times> annotation) list \<Rightarrow> param list \<Rightarrow> param_desc list \<Rightarrow> param_desc list" where
  "params_loop hints [] params = params"
| "params_loop hints (p # ps) params =
     (if param_name p = ''self'' then params_loop hints ps params
      else params_loop hints ps (params @ [param_info hints p]))"

definition extract_function_info :: "func_obj \<Rightarrow> string \<Rightarrow> func_desc option" where
  "extract_function_info func name =
     (case fn_signature func of
        None \<Rightarrow> None
      | Some (parameters, return_annotation) \<Rightarrow>
          (let hints = (case fn_hints func of Some h \<Rightarrow> h | None \<Rightarrow> []);
               params = params_loop hints parameters [];
               return_type = hints_get hints ''return'' return_annotation;
               return_info = parse_type_annotation return_type
           in Some \<lparr>fd_name = name,
                    fd_params = params,
                    fd_returnType = return_info,
                    fd_docstring = fn_doc func,
                    fd_isAsync = fn_coroutine func,
                    fd_isMethod = False\<rparr>))"

text \<open>
  A property object: \<open>pp_fget\<close> is \<open>None\<close> when \<open>attr.fget\<close> is falsy, else the
  result of \<open>get_type_hints(attr.fget)\<close> (\<open>None\<close> when that raises); \<open>pp_has_fset\<close>
  is \<open>attr.fset is not None\<close>; \<open>pp_doc\<close> is \<open>attr.__doc__\<close>.
\<close>

record property_obj =
  pp_fget :: "(string \<times> annotation) list option option"
  pp_has_fset :: bool
  pp_doc :: "string option"

text \<open>
  The value \<open>getattr(cls, name)\<close> of a class attribute: a plain function
  (\<open>inspect.isfunction\<close>), a property, or any other object (with what
  \<open>inspect.signature\<close> and the other inspections make of it).
\<close>

datatype class_attr =
    AttrFunction func_obj
  | AttrProperty property_obj
  | AttrOther func_obj

text \<open>
  A class: \<open>__name__\<close>; the attribute \<open>cls.__init__\<close> (\<open>None\<close> when \<open>hasattr(cls, '__init__')\<close>
  is false); the names of \<open>dir(cls)\<close> in order, each with its value \<open>getattr(cls, name)\<close>;
  \<open>inspect.getdoc(cls)\<close>; and the \<open>__name__\<close> of every base in \<open>cls.__bases__\<close>.
  \<open>dir(cls)\<close> need not list \<open>__init__\<close>: the metaclass decides what it lists (the
  subclasses of \<open>enum.Enum\<close> do not list it).
\<close>

record class_obj =
  cls_name :: string
  cls_init :: "class_attr option"
  cls_attrs :: "(string \<times> class_attr) list"
  cls_doc :: "string option"
  cls_bases :: "string list"

text \<open>What \<open>inspect.signature\<close> and the other inspections see of an attribute: a property is not callable, its signature raises \<open>TypeError\<close>.\<close>

fun attr_func :: "class_attr \<Rightarrow> func_obj" where
  "attr_func (AttrFunction f) = f"
| "attr_func (AttrOther f) = f"
| "attr_func (AttrProperty p) =
     \<lparr>fn_signature = None, fn_hints = None, fn_doc = pp_doc p, fn_coroutine = False\<rparr>"

text \<open>\<open>info['isMethod'] = True\<close> when \<open>info\<close> is not \<open>None\<close>.\<close>

definition mark_method :: "func_desc option \<Rightarrow> func_desc option" where
  "mark_method info = (case info of None \<Rightarrow> None | Some d \<Rightarrow> Some (d\<lparr>fd_isMethod := True\<rparr>))"

text \<open>
  The loop over \<open>inspect.getmembers(cls, predicate=inspect.isfunction)\<close>, whose members
  are the names of \<open>dir(cls)\<close> whose value is a plain function.
\<close>

fun methods_loop :: "(string \<times> class_attr) list \<Rightarrow> func_desc list \<Rightarrow> func_desc list" where
  "methods_loop [] methods = methods"
| "methods_loop ((name, AttrFunction method) # rest) methods =
     (if py_startswith name ''_'' \<and> name \<noteq> ''__init__'' then methods_loop rest methods
      else
        (case mark_method (extract_function_info method name) of
           None \<Rightarrow> methods_loop rest methods
         | Some method_info \<Rightarrow> methods_loop rest (methods @ [method_info])))"
| "methods_loop ((name, _) # rest) methods = methods_loop rest methods"

text \<open>The loop over \<open>dir(cls)\<close> that collects the properties.\<close>

definition property_type :: "property_obj \<Rightarrow> type_desc" where
  "property_type attr =
     (case pp_fget attr of
        None \<Rightarrow> KAny
      | Some None \<Rightarrow> KAny
      | Some (Some hints) \<Rightarrow>
          (case map_of hints ''return'' of
             Some a \<Rightarrow> parse_type_annotation a
           | None \<Rightarrow> KAny))"

fun properties_loop :: "(string \<times> class_attr) list \<Rightarrow> prop_desc list \<Rightarrow> prop_desc list" where
  "properties_loop [] properties = properties"
| "properties_loop ((name, AttrProperty attr) # rest) properties =
     (if py_startswith name ''_'' then properties_loop rest properties
      else
        properties_loop rest
          (properties @ [\<lparr>pr_name = name,
                          pr_type = property_type attr,
                          pr_readonly = (\<not> pp_has_fset attr),
                          pr_docstring = pp_doc attr\<rparr>]))"
| "properties_loop ((name, _) # rest) properties = properties_loop rest properties"

definition extract_class_info :: "class_obj \<Rightarrow> class_desc" where
  "extract_class_info cls =
     (let constructor =
            (case cls_init cls of
               None \<Rightarrow> None
             | Some init \<Rightarrow> mark_method (extract_function_info (attr_func init) ''__init__''));
          methods = methods_loop (cls_attrs cls) [];
          properties = properties_loop (cls_attrs cls) []
      in \<lparr>cd_name = cls_name cls,
          cd_constructor = constructor,
          cd_methods = methods,
          cd_properties = properties,
          cd_docstring = cls_doc cls,
          cd_bases = filter (\<lambda>b. b \<noteq> ''object'') (cls_bases cls)\<rparr>)"

section \<open>Exceptions\<close>

text \<open>
  The exceptions that an import or the inspection of a module can raise, as the
  \<open>except\<close> clauses of \<open>extract_package_types\<close> tell them apart: \<open>ImportError\<close> (and its subclasses) with
  its message, any other subclass of \<open>Exception\<close>, \<open>SystemExit\<close>, and any other
  \<open>BaseException\<close> (\<open>KeyboardInterrupt\<close>, \<open>GeneratorExit\<close>).
\<close>

datatype py_exception =
    ImportError string
  | OtherException string
  | SystemExit
  | OtherBaseException string

fun is_Exception :: "py_exception \<Rightarrow> bool" where
  "is_Exception (ImportError _) = True"
| "is_Exception (OtherException _) = True"
| "is_Exception SystemExit = False"
| "is_Exception (OtherBaseException _) = False"

datatype 'a outcome = Returns 'a | Raises py_exception

section \<open>The module walker\<close>

text \<open>
  A module-level value that is neither a function nor a class nor callable:
  \<open>type(obj)\<close>, \<open>isinstance(obj, (dict, list))\<close> and \<open>repr(obj)\<close>.
\<close>

record value_obj =
  val_type :: annotation
  val_is_dict_or_list :: bool
  val_repr :: string

text \<open>
  The classification \<open>extract_module_info\<close> makes of an object: \<open>inspect.isfunction\<close>,
  else \<open>inspect.isclass\<close>, else \<open>callable\<close>, else a constant.
\<close>

datatype obj_kind =
    IsFunction func_obj
  | IsClass class_obj
  | IsCallable
  | IsValue value_obj

text \<open>
  The value \<open>getattr(module, name, None)\<close>: \<open>None\<close>, or an object with its attribute
  \<open>__module__\<close> (\<open>None\<close> when \<open>hasattr(obj, '__module__')\<close> is false) and its classification.
\<close>

datatype py_obj =
    ObjNone
  | ObjOf "string option" obj_kind

text \<open>
  A module: \<open>__name__\<close>, \<open>__file__\<close>, \<open>__all__\<close>, \<open>__version__\<close> and \<open>__path__\<close>
  (each \<open>None\<close> when the attribute is missing), the names of \<open>dir(module)\<close> in order
  with their values, and \<open>inspect.getdoc(module)\<close>.
  The reflective calls of \<open>extract_module_info\<close> (\<open>dir\<close>, \<open>getattr\<close>, \<open>inspect.getmembers\<close>,
  \<open>repr(obj)\<close>, ...) run code of the inspected objects and can raise:
  \<open>mod_walk_raises\<close> is the exception with which the inspection of this module ends
  when one of them does, \<open>None\<close> when none does.
\<close>

record module_obj =
  mod_name :: string
  mod_file :: "string option"
  mod_all :: "string list option"
  mod_version :: "string option"
  mod_path :: "string list option"
  mod_dir :: "(string \<times> py_obj) list"
  mod_doc :: "string option"
  mod_walk_raises :: "py_exception option"

text \<open>\<open>set(getattr(module, '__all__', []))\<close>.\<close>

definition module_all :: "module_obj \<Rightarrow> string set" where
  "module_all mdl = (case mod_all mdl of None \<Rightarrow> {} | Some names \<Rightarrow> set names)"

text \<open>
  The expression of the key \<open>value\<close> of a constant:
  \<open>repr(obj) if not isinstance(obj, (dict, list)) or len(repr(obj)) < 100 else None\<close>.
\<close>

definition const_value :: "value_obj \<Rightarrow> string option" where
  "const_value obj =
     (if \<not> val_is_dict_or_list obj \<or> length (val_repr obj) < 100 then Some (val_repr obj)
      else None)"

text \<open>
  The body of the loop over \<open>dir(module)\<close>; the state is the three lists
  \<open>functions\<close>, \<open>classes\<close> and \<open>constants\<close>.
\<close>

fun module_step ::
  "module_obj \<Rightarrow> string \<times> py_obj \<Rightarrow>
   func_desc list \<times> class_desc list \<times> const_desc list \<Rightarrow>
   func_desc list \<times> class_desc list \<times> const_desc list" where
  "module_step mdl (name, obj) (functions, classes, constants) =
     (if py_startswith name ''_'' then (functions, classes, constants)
      else
        (case obj of
           ObjNone \<Rightarrow> (functions, classes, constants)
         | ObjOf dunder_module kind \<Rightarrow>
             (let is_defined_here = (dunder_module = None \<or> dunder_module = Some (mod_name mdl));
                  is_in_all = (name \<in> module_all mdl)
              in if \<not> is_defined_here \<and> \<not> is_in_all then (functions, classes, constants)
                 else
                   (case kind of
                      IsFunction f \<Rightarrow>
                        (case extract_function_info f name of
                           None \<Rightarrow> (functions, classes, constants)
                         | Some func_info \<Rightarrow> (functions @ [func_info], classes, constants))
                    | IsClass c \<Rightarrow> (functions, classes @ [extract_class_info c], constants)
                    | IsCallable \<Rightarrow> (functions, classes, constants)
                    | IsValue v \<Rightarrow>
                        (functions, classes,
                         constants @ [\<lparr>kd_name = name,
                                        kd_type = parse_type_annotation (val_type v),
                                        kd_value = const_value v\<rparr>])))))"

text \<open>The dictionary that \<open>extract_module_info\<close> returns when no inspection raises.\<close>

definition module_info :: "module_obj \<Rightarrow> string \<Rightarrow> module_desc" where
  "module_info mdl module_name =
     (case fold (module_step mdl) (mod_dir mdl) ([], [], []) of
        (functions, classes, constants) \<Rightarrow>
          \<lparr>md_name = module_name,
           md_path = (case mod_file mdl of None \<Rightarrow> [] | Some f \<Rightarrow> f),
           md_functions = functions,
           md_classes = classes,
           md_constants = constants,
           md_docstring = mod_doc mdl\<rparr>)"

definition extract_module_info :: "module_obj \<Rightarrow> string \<Rightarrow> module_desc outcome" where
  "extract_module_info mdl module_name =
     (case mod_walk_raises mdl of
        Some e \<Rightarrow> Raises e
      | None \<Rightarrow> Returns (module_info mdl module_name))"

section \<open>Coverage accounting\<close>

text \<open>The loop over \<open>func.get('params', [])\<close> in \<open>count_missing_annotations\<close>.\<close>

fun missing_params :: "string \<Rightarrow> param_desc list \<Rightarrow> string list \<Rightarrow> string list" where
  "missing_params func_name [] missing = missing"
| "missing_params func_name (p # ps) missing =
     missing_params func_name ps
       (if pd_type p = KAny then missing @ [func_name @ ''.'' @ pd_name p] else missing)"

text \<open>
  The body shared by the loop over the functions of a module (\<open>owner\<close> is the module's
  name) and the loop over the methods of a class (\<open>owner\<close> is \<open>module.Class\<close>).
\<close>

definition missing_func :: "string \<Rightarrow> func_desc \<Rightarrow> string list \<Rightarrow> string list" where
  "missing_func owner func missing =
     (let func_name = owner @ ''.'' @ fd_name func
      in missing_params func_name (fd_params func)
           (if fd_returnType func = KAny then missing @ [func_name @ '' (return type)'']
            else missing))"

definition missing_class :: "string \<Rightarrow> class_desc \<Rightarrow> string list \<Rightarrow> string list" where
  "missing_class module_name cls missing =
     fold (missing_func (module_name @ ''.'' @ cd_name cls)) (cd_methods cls) missing"

definition missing_module :: "module_desc \<Rightarrow> string list \<Rightarrow> string list" where
  "missing_module mdl missing =
     fold (missing_class (md_name mdl)) (md_classes mdl)
       (fold (missing_func (md_name mdl)) (md_functions mdl) missing)"

text \<open>\<open>count_missing_annotations\<close>, applied to the list under the key \<open>modules\<close> of the schema.\<close>

definition count_missing_annotations :: "module_desc list \<Rightarrow> string list" where
  "count_missing_annotations modules = fold missing_module modules []"

text \<open>The loops that add up \<open>total_items\<close>.\<close>

definition total_func :: "func_desc \<Rightarrow> nat \<Rightarrow> nat" where
  "total_func func total_items = total_items + (1 + length (fd_params func))"

definition total_module :: "module_desc \<Rightarrow> nat \<Rightarrow> nat" where
  "total_module mdl total_items =
     fold (\<lambda>cls. fold total_func (cd_methods cls)) (md_classes mdl)
       (fold total_func (md_functions mdl) total_items)"

definition count_total_items :: "module_desc list \<Rightarrow> nat" where
  "count_total_items modules = fold total_module modules 0"

section \<open>Floating point\<close>

text \<open>\<open>n.bit_length()\<close>: the number of binary digits of a positive integer.\<close>

function bit_length :: "int \<Rightarrow> nat" where
  "bit_length n = (if n \<le> 0 then 0 else Suc (bit_length (n div 2)))"
  by pat_completeness auto
termination
  by (relation "measure nat") auto

declare bit_length.simps [simp del]

text \<open>\<open>2 ** e\<close> for a non-negative \<open>e\<close>, and 1 for a negative one.\<close>

definition pow2 :: "int \<Rightarrow> int" where
  "pow2 e = 2 ^ nat e"

text \<open>The integer nearest to the fraction \<open>p / q\<close> (with \<open>q > 0\<close>), a tie going to the even one.\<close>

definition round_half_even :: "int \<Rightarrow> int \<Rightarrow> int" where
  "round_half_even p q =
     (let f = p div q; r = p mod q
      in if 2 * r < q then f
         else if q < 2 * r then f + 1
         else if even f then f else f + 1)"

text \<open>
  A finite Python float (an IEEE 754 double) is \<open>m * 2 ** e\<close> for two integers: the pair
  \<open>(m, e)\<close> stands for it, and \<open>float_value\<close> is the number it is. The range of the
  exponent is not modelled (no overflow, no subnormal numbers): the quotient of two
  list lengths and its multiples by 100 are far from both ends.
\<close>

type_synonym double = "int \<times> int"

definition float_value :: "double \<Rightarrow> rat" where
  "float_value d = of_int (fst d) * 2 powi (snd d)"

text \<open>
  The double nearest to the fraction \<open>p / q\<close> (with \<open>q > 0\<close>), a tie going to the even
  significand: the exponent \<open>e\<close> is the one for which \<open>|p / q| / 2 ** e\<close> lies between
  \<open>2 ** 52\<close> and \<open>2 ** 53\<close>, and the significand is \<open>p / q / 2 ** e\<close> rounded to an integer.
\<close>

definition nearest_double :: "int \<Rightarrow> int \<Rightarrow> double" where
  "nearest_double p q =
     (if p = 0 then (0, 0)
      else
        (let e0 = int (bit_length \<bar>p\<bar>) - int (bit_length q) - 53;
             e = (if 2 ^ 53 * (q * pow2 e0) \<le> \<bar>p\<bar> * pow2 (- e0) then e0 + 1 else e0)
         in (round_half_even (p * pow2 (- e)) (q * pow2 e), e)))"

text \<open>\<open>a / b\<close> for two integers (true division, correctly rounded), \<open>b\<close> positive.\<close>

definition float_div :: "int \<Rightarrow> int \<Rightarrow> double" where
  "float_div a b = nearest_double a b"

text \<open>\<open>x * n\<close> for a float \<open>x\<close> and a small integer \<open>n\<close> (converted exactly): the product, rounded.\<close>

definition float_mul_int :: "double \<Rightarrow> int \<Rightarrow> double" where
  "float_mul_int x n = (case nearest_double (fst x * n) 1 of (m, e) \<Rightarrow> (m, e + snd x))"

text \<open>
  \<open>round(x, 2)\<close> for a float \<open>x\<close>: the exact value of \<open>x\<close> is rounded to a whole number of
  hundredths, a tie going to the even one, and the result is the double nearest to
  that decimal number.
\<close>

definition float_round2 :: "double \<Rightarrow> double" where
  "float_round2 x =
     nearest_double (round_half_even (fst x * 100 * pow2 (snd x)) (pow2 (- snd x))) 100"

text \<open>A Python number: an \<open>int\<close> or a \<open>float\<close>.\<close>

datatype py_number = PyInt int | PyFloat double

fun number_value :: "py_number \<Rightarrow> rat" where
  "number_value (PyInt n) = of_int n"
| "number_value (PyFloat d) = float_value d"

text \<open>\<open>round(x, 2)\<close>: an \<open>int\<close> is returned as it is.\<close>

fun py_round2 :: "py_number \<Rightarrow> py_number" where
  "py_round2 (PyInt n) = PyInt n"
| "py_round2 (PyFloat d) = PyFloat (float_round2 d)"

text \<open>
  \<open>((total_items - len(missing)) / total_items * 100) if total_items > 0 else 100\<close>.
\<close>

definition coverage_of :: "nat \<Rightarrow> nat \<Rightarrow> py_number" where
  "coverage_of total_items n_missing =
     (if total_items > 0
      then PyFloat (float_mul_int (float_div (int total_items - int n_missing) (int total_items)) 100)
      else PyInt 100)"

section \<open>The package assembler\<close>

text \<open>
  The streams bound to \<open>sys.stdout\<close> and \<open>sys.stderr\<close>: a stream of the caller, or the
  buffer \<open>io.StringIO()\<close> the assembler creates around a submodule import.
\<close>

datatype stream = Console nat | StringIO

record sys_state =
  sys_path :: "string list"
  sys_stdout :: stream
  sys_stderr :: stream

text \<open>A file found by \<open>path.glob('*.py')\<close>: its \<open>name\<close> and its \<open>stem\<close>.\<close>

record py_file =
  file_name :: string
  file_stem :: string

text \<open>
  What the extractor reads from the world outside it:
  \<^item> \<open>import_module\<close>: \<open>importlib.import_module(name)\<close>, run in a state of \<open>sys\<close>
    (the search path decides what is found, and the module's top-level code may print,
    rebind the streams or change the path);
  \<^item> \<open>metadata_version\<close>: \<open>importlib.metadata.version(name)\<close>, \<open>None\<close> when it raises;
  \<^item> \<open>path_exists\<close> and \<open>glob_py\<close>: \<open>Path(path).exists()\<close> and \<open>Path(path).glob('*.py')\<close>;
  \<^item> \<open>utcnow\<close>: \<open>datetime.utcnow().isoformat()\<close>.
\<close>

record environment =
  import_module :: "string \<Rightarrow> sys_state \<Rightarrow> module_obj outcome \<times> sys_state"
  metadata_version :: "string \<Rightarrow> string option"
  path_exists :: "string \<Rightarrow> bool"
  glob_py :: "string \<Rightarrow> py_file list"
  utcnow :: string

record package_schema =
  ps_package :: string
  ps_version :: string
  ps_modules :: "module_desc list"
  ps_extractedAt :: string
  ps_missingAnnotations :: "string list"
  ps_typeAnnotationCoverage :: py_number

text \<open>The two dictionaries \<open>extract_package_types\<close> returns: \<open>{"error": ...}\<close> or the schema.\<close>

datatype extraction = ErrorResult string | Schema package_schema

text \<open>The version: \<open>__version__\<close>, else the metadata under \<open>pip_name or package_name\<close>, else under \<open>package_name\<close>, else \<open>'unknown'\<close>.\<close>

definition package_version :: "environment \<Rightarrow> module_obj \<Rightarrow> string \<Rightarrow> string option \<Rightarrow> string" where
  "package_version env main_module package_name pip_name =
     (case mod_version main_module of
        Some v \<Rightarrow> v
      | None \<Rightarrow>
          (case metadata_version env
                  (case pip_name of None \<Rightarrow> package_name
                   | Some n \<Rightarrow> if n = [] then package_name else n) of
             Some v \<Rightarrow> v
           | None \<Rightarrow>
               (case metadata_version env package_name of
                  Some v \<Rightarrow> v
                | None \<Rightarrow> ''unknown'')))"

text \<open>
  The first statement of \<open>extract_package_types\<close>: \<open>site_packages_path\<close> is put first on
  \<open>sys.path\<close> when it is not on it.
\<close>

definition with_site :: "string \<Rightarrow> sys_state \<Rightarrow> sys_state" where
  "with_site site_packages_path s =
     (if site_packages_path \<notin> set (sys_path s)
      then s\<lparr>sys_path := site_packages_path # sys_path s\<rparr> else s)"

text \<open>\<open>sys.stdout = sys.stderr = io.StringIO()\<close>: both streams bound to the buffer.\<close>

definition redirected :: "sys_state \<Rightarrow> sys_state" where
  "redirected s = s\<lparr>sys_stdout := StringIO, sys_stderr := StringIO\<rparr>"

text \<open>An exception that \<open>except (Exception, SystemExit)\<close> catches.\<close>

definition absorbed :: "py_exception \<Rightarrow> bool" where
  "absorbed e = (is_Exception e \<or> e = SystemExit)"

text \<open>
  The attempt on one submodule (the outer \<open>try\<close> of the loop body): the streams are
  saved and rebound to a fresh buffer, the import runs, the \<open>finally\<close> clause rebinds
  the saved streams, the module is walked, and \<open>except (Exception, SystemExit)\<close>
  absorbs a failure of the import or of the walk.
  The result is the list \<open>modules\<close> after the attempt, or the exception that leaves it.
\<close>

definition try_submodule ::
  "environment \<Rightarrow> string \<Rightarrow> module_desc list \<Rightarrow> sys_state \<Rightarrow> module_desc list outcome \<times> sys_state" where
  "try_submodule env submodule_name modules s =
     (let old_stdout = sys_stdout s;
          old_stderr = sys_stderr s;
          s1 = redirected s
      in case import_module env submodule_name s1 of
           (r, s2) \<Rightarrow>
             (let s3 = s2\<lparr>sys_stdout := old_stdout, sys_stderr := old_stderr\<rparr>;
                  attempt =
                    (case r of
                       Raises e \<Rightarrow> Raises e
                     | Returns submodule \<Rightarrow>
                         (case extract_module_info submodule submodule_name of
                            Raises e \<Rightarrow> Raises e
                          | Returns sub_info \<Rightarrow>
                              Returns (if md_functions sub_info \<noteq> [] \<or> md_classes sub_info \<noteq> []
                                       then modules @ [sub_info] else modules)))
              in case attempt of
                   Returns modules' \<Rightarrow> (Returns modules', s3)
                 | Raises e \<Rightarrow> if absorbed e then (Returns modules, s3) else (Raises e, s3)))"

text \<open>The loop over the files of one directory of \<open>__path__\<close>.\<close>

fun files_loop ::
  "environment \<Rightarrow> string \<Rightarrow> py_file list \<Rightarrow> module_desc list \<Rightarrow> sys_state \<Rightarrow> module_desc list outcome \<times> sys_state" where
  "files_loop env package_name [] modules s = (Returns modules, s)"
| "files_loop env package_name (py_file # rest) modules s =
     (if py_startswith (file_name py_file) ''_'' then files_loop env package_name rest modules s
      else
        (case try_submodule env (package_name @ ''.'' @ file_stem py_file) modules s of
           (Returns modules', s') \<Rightarrow> files_loop env package_name rest modules' s'
         | (Raises e, s') \<Rightarrow> (Raises e, s')))"

text \<open>The loop over the directories of \<open>__path__\<close>.\<close>

fun paths_loop ::
  "environment \<Rightarrow> string \<Rightarrow> string list \<Rightarrow> module_desc list \<Rightarrow> sys_state \<Rightarrow> module_desc list outcome \<times> sys_state" where
  "paths_loop env package_name [] modules s = (Returns modules, s)"
| "paths_loop env package_name (path # rest) modules s =
     (if path_exists env path then
        (case files_loop env package_name (glob_py env path) modules s of
           (Returns modules', s') \<Rightarrow> paths_loop env package_name rest modules' s'
         | (Raises e, s') \<Rightarrow> (Raises e, s'))
      else paths_loop env package_name rest modules s)"

text \<open>The end of \<open>extract_package_types\<close>: the schema with its missing annotations and its coverage.\<close>

definition assemble_schema :: "string \<Rightarrow> string \<Rightarrow> module_desc list \<Rightarrow> string \<Rightarrow> package_schema" where
  "assemble_schema package_name version modules now =
     (let missing = count_missing_annotations modules;
          total_items = count_total_items modules;
          coverage = coverage_of total_items (length missing)
      in \<lparr>ps_package = package_name,
          ps_version = version,
          ps_modules = modules,
          ps_extractedAt = now @ ''Z'',
          ps_missingAnnotations = missing,
          ps_typeAnnotationCoverage = py_round2 coverage\<rparr>)"

definition extract_package_types ::
  "environment \<Rightarrow> string \<Rightarrow> string \<Rightarrow> string option \<Rightarrow> sys_state \<Rightarrow> extraction outcome \<times> sys_state" where
  "extract_package_types env package_name site_packages_path pip_name s =
     (let s0 = with_site site_packages_path s
      in case import_module env package_name s0 of
           (Raises (ImportError e), s1) \<Rightarrow>
             (Returns (ErrorResult (''Failed to import '' @ package_name @ '': '' @ e)), s1)
         | (Raises e, s1) \<Rightarrow> (Raises e, s1)
         | (Returns main_module, s1) \<Rightarrow>
             (let version = package_version env main_module package_name pip_name
              in case extract_module_info main_module package_name of
                   Raises e \<Rightarrow> (Raises e, s1)
                 | Returns main_info \<Rightarrow>
                     (let modules = [main_info]
                      in case (case mod_path main_module of
                                 None \<Rightarrow> (Returns modules, s1)
                               | Some package_path \<Rightarrow>
                                   paths_loop env package_name package_path modules s1) of
                           (Raises e, s2) \<Rightarrow> (Raises e, s2)
                         | (Returns modules', s2) \<Rightarrow>
                             (Returns (Schema (assemble_schema package_name version modules'
                                                 (utcnow env))), s2))))"

section \<open>Descriptors fed back as annotations\<close>

text \<open>
  \<open>repr\<close> of a descriptor dictionary, keys in insertion order. The strings in it are
  names of types, printed between single quotes.
\<close>

definition py_quote :: "string \<Rightarrow> string" where
  "py_quote v = CHR 0x27 # v @ [CHR 0x27]"

fun join_comma :: "string list \<Rightarrow> string" where
  "join_comma [] = []"
| "join_comma [x] = x"
| "join_comma (x # y # ys) = x @ '', '' @ join_comma (y # ys)"

fun desc_repr :: "type_desc \<Rightarrow> string" where
  "desc_repr KNone = ''{'kind': 'none'}''"
| "desc_repr KAny = ''{'kind': 'any'}''"
| "desc_repr (KPrimitive v) = ''{'kind': 'primitive', 'value': '' @ py_quote v @ ''}''"
| "desc_repr (KList e) = ''{'kind': 'list', 'elementType': '' @ desc_repr e @ ''}''"
| "desc_repr (KDict k v) =
     ''{'kind': 'dict', 'keyType': '' @ desc_repr k @ '', 'valueType': '' @ desc_repr v @ ''}''"
| "desc_repr (KTuple es) =
     ''{'kind': 'tuple', 'elements': ['' @ join_comma (map desc_repr es) @ '']}''"
| "desc_repr (KOptional i) = ''{'kind': 'optional', 'innerType': '' @ desc_repr i @ ''}''"
| "desc_repr (KClass n) = ''{'kind': 'class', 'className': '' @ py_quote n @ ''}''"

text \<open>
  A descriptor passed to \<open>parse_type_annotation\<close> as its argument. It is a \<open>dict\<close>
  instance: \<open>get_origin\<close> gives \<open>None\<close>, it has no \<open>__origin__\<close>, \<open>get_args\<close> gives
  \<open>()\<close>, it is not a class, and \<open>str\<close> of it is its \<open>repr\<close>.
\<close>

definition dict_annotation :: "type_desc \<Rightarrow> annotation" where
  "dict_annotation d = Obj None None [] None (desc_repr d)"

section \<open>The objects of the typing module\<close>

text \<open>
  \<open>ForwardRef('n')\<close>, in which \<open>typing\<close> wraps a string parameter: it is not a string, has
  no origin and no arguments and is not a class.
\<close>

definition forward_ref :: "string \<Rightarrow> annotation" where
  "forward_ref n = Obj None None [] None (''ForwardRef('' @ py_quote n @ '')'')"

text \<open>
  A parameter as \<open>typing\<close> stores it in the arguments of \<open>List[...]\<close>, \<open>Dict[...]\<close>,
  \<open>Tuple[...]\<close>, \<open>Optional[...]\<close> and \<open>Union[...]\<close>: \<open>None\<close> becomes \<open>type(None)\<close>, a string
  becomes a \<open>ForwardRef\<close>, anything else is kept.
\<close>

fun typing_arg :: "annotation \<Rightarrow> annotation" where
  "typing_arg PyNone = NoneType"
| "typing_arg (StrAnn n) = forward_ref n"
| "typing_arg a = a"

text \<open>
  \<open>List[T]\<close>, \<open>Dict[K, V]\<close> and \<open>Tuple[T1, ..., Tn]\<close>: \<open>get_origin\<close> and \<open>__origin__\<close> are
  \<open>list\<close>, \<open>dict\<close> and \<open>tuple\<close>, \<open>get_args\<close> are the stored parameters; \<open>cls\<close> and \<open>s\<close>
  are what \<open>inspect.isclass\<close> with \<open>__name__\<close> and \<open>str\<close> make of the object.
\<close>

definition typing_List :: "annotation \<Rightarrow> string option \<Rightarrow> string \<Rightarrow> annotation" where
  "typing_List T cls s = Obj (Some OList) (Some OList) [typing_arg T] cls s"

definition typing_Dict :: "annotation \<Rightarrow> annotation \<Rightarrow> string option \<Rightarrow> string \<Rightarrow> annotation" where
  "typing_Dict K V cls s = Obj (Some ODict) (Some ODict) [typing_arg K, typing_arg V] cls s"

definition typing_Tuple :: "annotation list \<Rightarrow> string option \<Rightarrow> string \<Rightarrow> annotation" where
  "typing_Tuple Ts cls s = Obj (Some OTuple) (Some OTuple) (map typing_arg Ts) cls s"

text \<open>
  A union object of \<open>typing\<close> with the arguments \<open>args\<close>: \<open>get_origin\<close> and \<open>__origin__\<close>
  are \<open>typing.Union\<close>.
\<close>

definition typing_Union :: "annotation list \<Rightarrow> string option \<Rightarrow> string \<Rightarrow> annotation" where
  "typing_Union args cls s = Obj (Some OUnion) (Some OUnion) args cls s"


text \<open>The members that a parameter contributes to a union: those of a union, or itself.\<close>

fun union_members :: "annotation \<Rightarrow> annotation list" where
  "union_members (Obj (Some OUnion) dunder args cls s) = args"
| "union_members (Obj (Some OUnionType) dunder args cls s) = args"
| "union_members a = [a]"

text \<open>A list without the later occurrences of a repeated element.\<close>

definition dedup :: "'a list \<Rightarrow> 'a list" where
  "dedup xs = rev (remdups (rev xs))"

text \<open>
  \<open>Optional[T]\<close>, which \<open>typing\<close> builds as \<open>Union[T, None]\<close>: the members of a union
  parameter are taken in its place, a repeated member is dropped, and a union of one
  member is that member.
\<close>

definition typing_Optional :: "annotation \<Rightarrow> string option \<Rightarrow> string \<Rightarrow> annotation" where
  "typing_Optional T cls s =
     (case dedup (union_members (typing_arg T) @ [NoneType]) of
        [a] \<Rightarrow> a
      | args \<Rightarrow> typing_Union args cls s)"

text \<open>A parameter that is a union.\<close>

fun is_union :: "annotation \<Rightarrow> bool" where
  "is_union (Obj (Some OUnion) dunder args cls s) = True"
| "is_union (Obj (Some OUnionType) dunder args cls s) = True"
| "is_union a = False"

text \<open>A parameter that is a string (a forward reference).\<close>

fun is_string :: "annotation \<Rightarrow> bool" where
  "is_string (StrAnn n) = True"
| "is_string a = False"

section \<open>Example objects\<close>

text \<open>
  \<open>def scale(x: int, self) -> float\<close>, a free function with a parameter named \<open>self\<close>,
  and \<open>def build(cls, n: int = 0)\<close>, a method whose first parameter is named \<open>cls\<close>.
\<close>

definition scale_fn :: func_obj where
  "scale_fn =
     \<lparr>fn_signature =
        Some ([\<lparr>param_name = ''x'', param_annotation = TInt, param_default = None\<rparr>,
               \<lparr>param_name = ''self'', param_annotation = Empty, param_default = None\<rparr>], TFloat),
      fn_hints = Some [(''x'', TInt), (''return'', TFloat)],
      fn_doc = None,
      fn_coroutine = False\<rparr>"

definition build_fn :: func_obj where
  "build_fn =
     \<lparr>fn_signature =
        Some ([\<lparr>param_name = ''cls'', param_annotation = Empty, param_default = None\<rparr>,
               \<lparr>param_name = ''n'', param_annotation = TInt, param_default = Some ''0''\<rparr>], Empty),
      fn_hints = Some [(''n'', TInt)],
      fn_doc = None,
      fn_coroutine = False\<rparr>"

text \<open>
  \<open>class Point\<close> with \<open>def __init__(self, x: int, y)\<close> and the method \<open>build\<close>, and the
  module \<open>geo\<close> that defines it.
\<close>

definition point_init :: func_obj where
  "point_init =
     \<lparr>fn_signature =
        Some ([\<lparr>param_name = ''self'', param_annotation = Empty, param_default = None\<rparr>,
               \<lparr>param_name = ''x'', param_annotation = TInt, param_default = None\<rparr>,
               \<lparr>param_name = ''y'', param_annotation = Empty, param_default = None\<rparr>], Empty),
      fn_hints = Some [(''x'', TInt)],
      fn_doc = None,
      fn_coroutine = False\<rparr>"

definition point_cls :: class_obj where
  "point_cls =
     \<lparr>cls_name = ''Point'',
      cls_init = Some (AttrFunction point_init),
      cls_attrs = [(''__init__'', AttrFunction point_init), (''build'', AttrFunction build_fn)],
      cls_doc = None,
      cls_bases = [''object'']\<rparr>"



definition geo_module :: module_obj where
  "geo_module =
     \<lparr>mod_name = ''geo'',
      mod_file = Some ''/site/geo.py'',
      mod_all = None,
      mod_version = Some ''1.0'',
      mod_path = None,
      mod_dir = [(''Point'', ObjOf (Some ''geo'') (IsClass point_cls))],
      mod_doc = None,
      mod_walk_raises = None\<rparr>"

text \<open>
  The module \<open>tools\<close>, whose source reads \<open>from os import sep\<close>, \<open>from math import sqrt\<close>,
  \<open>PORTS = [1, 2]\<close> and \<open>def run(): ...\<close>, and declares no \<open>__all__\<close>. The string
  \<open>sep\<close> and the list \<open>PORTS\<close> have no attribute \<open>__module__\<close>; \<open>sqrt\<close> is a built-in
  (callable, not a plain function) of the module \<open>math\<close>.
\<close>

definition sep_obj :: py_obj where
  "sep_obj =
     ObjOf None (IsValue \<lparr>val_type = TStr, val_is_dict_or_list = False, val_repr = py_quote ''/''\<rparr>)"

definition sqrt_obj :: py_obj where
  "sqrt_obj = ObjOf (Some ''math'') IsCallable"

definition ports_obj :: py_obj where
  "ports_obj =
     ObjOf None (IsValue \<lparr>val_type = Obj None None [] (Some ''list'') ''<class 'list'>'',
                          val_is_dict_or_list = True,
                          val_repr = ''[1, 2]''\<rparr>)"

definition run_fn :: func_obj where
  "run_fn = \<lparr>fn_signature = Some ([], Empty), fn_hints = Some [], fn_doc = None, fn_coroutine = False\<rparr>"

definition tools_module :: module_obj where
  "tools_module =
     \<lparr>mod_name = ''tools'',
      mod_file = Some ''/site/tools.py'',
      mod_all = None,
      mod_version = None,
      mod_path = None,
      mod_dir = [(''PORTS'', ports_obj), (''run'', ObjOf (Some ''tools'') (IsFunction run_fn)),
                 (''sep'', sep_obj), (''sqrt'', sqrt_obj)],
      mod_doc = None,
      mod_walk_raises = None\<rparr>"

text \<open>The attribute \<open>__module__\<close> of a module-level value, \<open>None\<close> when it has none.\<close>

fun declared_module :: "py_obj \<Rightarrow> string option" where
  "declared_module ObjNone = None"
| "declared_module (ObjOf dunder_module kind) = dunder_module"

text \<open>
  The objects the walker has a descriptor for: a function whose signature can be read,
  a class, and a value that is not callable.
\<close>

fun described :: "string \<Rightarrow> obj_kind \<Rightarrow> bool" where
  "described name (IsFunction f) = (extract_function_info f name \<noteq> None)"
| "described name (IsClass c) = True"
| "described name IsCallable = False"
| "described name (IsValue v) = True"

text \<open>
  Two more constants: \<open>CODES = list(range(1000, 1020))\<close>, whose \<open>repr\<close> has 120
  characters, and \<open>BANNER = '=' * 120\<close>, a string whose \<open>repr\<close> has 122.
\<close>

definition codes_value :: value_obj where
  "codes_value =
     \<lparr>val_type = Obj None None [] (Some ''list'') ''<class 'list'>'',
      val_is_dict_or_list = True,
      val_repr = ''[1000, 1001, 1002, 1003, 1004, 1005, 1006, 1007, 1008, 1009, 1010, 1011, 1012, 1013, 1014, 1015, 1016, 1017, 1018, 1019]''\<rparr>"

definition banner_value :: value_obj where
  "banner_value =
     \<lparr>val_type = TStr,
      val_is_dict_or_list = False,
      val_repr = py_quote (replicate 120 (CHR ''=''))\<rparr>"

section \<open>The slots of the specification\<close>

text \<open>
  The total of the specification: for every function and every method of every module
  of the schema, one slot for its return and one for each of its parameters.
\<close>

definition function_slots :: "func_desc \<Rightarrow> nat" where
  "function_slots f = 1 + length (fd_params f)"

definition annotatable_slots :: "module_desc list \<Rightarrow> nat" where
  "annotatable_slots modules =
     (\<Sum>m\<leftarrow>modules. (\<Sum>f\<leftarrow>md_functions m. function_slots f)
                      + (\<Sum>c\<leftarrow>md_classes m. \<Sum>f\<leftarrow>cd_methods c. function_slots f))"

section \<open>Example packages\<close>

text \<open>The state of \<open>sys\<close> before a run: the caller's streams and a search path.\<close>

definition sys0 :: sys_state where
  "sys0 = \<lparr>sys_path = [''/usr/lib/python3''], sys_stdout = Console 1, sys_stderr = Console 2\<rparr>"

text \<open>\<open>ModuleNotFoundError\<close>, a subclass of \<open>ImportError\<close>, for a name that is not installed.\<close>

definition not_found :: "string \<Rightarrow> py_exception" where
  "not_found name = ImportError (''No module named '' @ py_quote name)"

text \<open>A world where only the single-file module \<open>geo\<close> is installed.\<close>

definition geo_env :: environment where
  "geo_env =
     \<lparr>import_module = (\<lambda>name s. if name = ''geo'' then (Returns geo_module, s)
                                  else (Raises (not_found name), s)),
      metadata_version = (\<lambda>name. None),
      path_exists = (\<lambda>path. False),
      glob_py = (\<lambda>path. []),
      utcnow = ''2024-05-01T12:00:00''\<rparr>"

text \<open>
  The module \<open>big\<close>: 5000 functions \<open>f\<close>, \<open>fx\<close>, \<open>fxx\<close>, ... of the shape
  \<open>def f(a: int, b: int, c: int, d: int, e: int, g: int, h: int) -> int\<close>, fully
  annotated, and one function \<open>def h()\<close> with no return annotation.
\<close>

definition int_param :: "string \<Rightarrow> param" where
  "int_param n = \<lparr>param_name = n, param_annotation = TInt, param_default = None\<rparr>"

definition wide_fn :: func_obj where
  "wide_fn =
     \<lparr>fn_signature = Some (map int_param [''a'', ''b'', ''c'', ''d'', ''e'', ''g'', ''h''], TInt),
      fn_hints = None,
      fn_doc = None,
      fn_coroutine = False\<rparr>"

definition wide_name :: "nat \<Rightarrow> string" where
  "wide_name i = CHR ''f'' # replicate i (CHR ''x'')"

definition big_module :: module_obj where
  "big_module =
     \<lparr>mod_name = ''big'',
      mod_file = Some ''/site/big.py'',
      mod_all = None,
      mod_version = Some ''3.1'',
      mod_path = None,
      mod_dir = map (\<lambda>i. (wide_name i, ObjOf (Some ''big'') (IsFunction wide_fn))) [0..<5000]
                @ [(''h'', ObjOf (Some ''big'') (IsFunction run_fn))],
      mod_doc = None,
      mod_walk_raises = None\<rparr>"

definition big_env :: environment where
  "big_env =
     \<lparr>import_module = (\<lambda>name s. if name = ''big'' then (Returns big_module, s)
                                  else (Raises (not_found name), s)),
      metadata_version = (\<lambda>name. None),
      path_exists = (\<lambda>path. False),
      glob_py = (\<lambda>path. []),
      utcnow = ''2024-05-01T12:00:00''\<rparr>"

text \<open>
  The package \<open>pkg\<close>: a directory with \<open>__init__.py\<close> (no symbols of its own) and the
  files \<open>_compat.py\<close>, \<open>broken.py\<close> (rebinds \<open>sys.stdout\<close>, then raises \<open>RuntimeError\<close>),
  \<open>cli.py\<close> (calls \<open>sys.exit()\<close> at import) and \<open>core.py\<close> (defines \<open>run\<close>).
\<close>

definition pkg_main :: module_obj where
  "pkg_main =
     \<lparr>mod_name = ''pkg'',
      mod_file = Some ''/site/pkg/__init__.py'',
      mod_all = None,
      mod_version = None,
      mod_path = Some [''/site/pkg''],
      mod_dir = [],
      mod_doc = None,
      mod_walk_raises = None\<rparr>"

definition core_module :: module_obj where
  "core_module =
     \<lparr>mod_name = ''pkg.core'',
      mod_file = Some ''/site/pkg/core.py'',
      mod_all = None,
      mod_version = None,
      mod_path = None,
      mod_dir = [(''run'', ObjOf (Some ''pkg.core'') (IsFunction run_fn))],
      mod_doc = None,
      mod_walk_raises = None\<rparr>"

definition pkg_files :: "py_file list" where
  "pkg_files =
     [\<lparr>file_name = ''_compat.py'', file_stem = ''_compat''\<rparr>,
      \<lparr>file_name = ''broken.py'', file_stem = ''broken''\<rparr>,
      \<lparr>file_name = ''cli.py'', file_stem = ''cli''\<rparr>,
      \<lparr>file_name = ''core.py'', file_stem = ''core''\<rparr>]"

definition pkg_import :: "string \<Rightarrow> sys_state \<Rightarrow> module_obj outcome \<times> sys_state" where
  "pkg_import name s =
     (if name = ''pkg'' then (Returns pkg_main, s)
      else if name = ''pkg.broken'' then (Raises (OtherException ''boom''), s\<lparr>sys_stdout := Console 9\<rparr>)
      else if name = ''pkg.cli'' then (Raises SystemExit, s)
      else if name = ''pkg.core'' then (Returns core_module, s)
      else (Raises (not_found name), s))"

definition pkg_env :: environment where
  "pkg_env =
     \<lparr>import_module = pkg_import,
      metadata_version = (\<lambda>name. if name = ''pkg'' then Some ''2.0'' else None),
      path_exists = (\<lambda>path. path = ''/site/pkg''),
      glob_py = (\<lambda>path. if path = ''/site/pkg'' then pkg_files else []),
      utcnow = ''2024-05-01T12:00:00''\<rparr>"

text \<open>The same world with the user interrupting every import (\<open>KeyboardInterrupt\<close>) after the module has rebound both streams.\<close>

definition interrupt_env :: environment where
  "interrupt_env =
     pkg_env\<lparr>import_module :=
       (\<lambda>name s. (Raises (OtherBaseException ''KeyboardInterrupt''),
                   s\<lparr>sys_stdout := Console 9, sys_stderr := Console 9\<rparr>))\<rparr>"


text \<open>A world where the package \<open>crash\<close> is installed and its \<open>__init__.py\<close> has a syntax error.\<close>

definition crash_env :: environment where
  "crash_env =
     \<lparr>import_module = (\<lambda>name s. if name = ''crash''
                                  then (Raises (OtherException ''invalid syntax (__init__.py, line 1)''), s)
                                  else (Raises (not_found name), s)),
      metadata_version = (\<lambda>name. None),
      path_exists = (\<lambda>path. False),
      glob_py = (\<lambda>path. []),
      utcnow = ''2024-05-01T12:00:00''\<rparr>"

section \<open>Properties\<close>

subsection \<open>Unions\<close>



lemma parse_union:
  "parse_type_annotation (typing_Union args cls s) =
     (case filter (\<lambda>a. a \<noteq> NoneType) args of
        [t] \<Rightarrow> if NoneType \<in> set args then KOptional (parse_type_annotation t) else KAny
      | _ \<Rightarrow> KAny)"
  by (simp add: typing_Union_def)




subsection \<open>Generic forms and re-resolution\<close>

lemma parse_forward_ref: "parse_type_annotation (forward_ref n) = KAny"
  by (simp add: forward_ref_def)

lemma parse_typing_arg:
  "parse_type_annotation (typing_arg T)
     = (if is_string T then KAny else parse_type_annotation T)"
  by (cases T) (simp_all add: parse_forward_ref)

lemma union_members_single: "\<not> is_union T \<Longrightarrow> union_members T = [T]"
  by (cases T rule: union_members.cases) simp_all

lemma typing_Optional_plain:
  assumes "\<not> is_string T" and "\<not> is_union T" and "T \<noteq> PyNone" and "T \<noteq> NoneType"
  shows "typing_Optional T cls s = typing_Union [T, NoneType] cls s"
proof -
  have a: "typing_arg T = T" using assms(1,3) by (cases T) simp_all
  have "dedup [T, NoneType] = [T, NoneType]" using assms(4) by (simp add: dedup_def)
  then show ?thesis
    using assms(2) by (simp add: typing_Optional_def a union_members_single)
qed

text \<open>
  The parameters that the amended claim has to leave out. In \<open>List['int']\<close> the argument
  is a \<open>ForwardRef\<close>, which resolves to \<open>any\<close> although the string \<open>'int'\<close> resolves to the
  primitive; \<open>Optional[Union[int, str]]\<close> is the union of \<open>int\<close>, \<open>str\<close> and \<open>None\<close>, which
  resolves to \<open>any\<close>; \<open>Optional[None]\<close> is \<open>type(None)\<close>.
\<close>

lemma forward_ref_argument:
  "parse_type_annotation (typing_List (StrAnn ''int'') None ''typing.List[ForwardRef('int')]'')
     = KList KAny
   \<and> parse_type_annotation (StrAnn ''int'') = KPrimitive ''int''"
  by (simp add: typing_List_def forward_ref_def type_map_def)

lemma optional_of_union:
  "typing_Optional (typing_Union [TInt, TStr] None ''typing.Union[int, str]'') None
       ''typing.Union[int, str, NoneType]''
     = typing_Union [TInt, TStr, NoneType] None ''typing.Union[int, str, NoneType]''
   \<and> parse_type_annotation
        (typing_Optional (typing_Union [TInt, TStr] None ''typing.Union[int, str]'') None
           ''typing.Union[int, str, NoneType]'') = KAny
   \<and> typing_Optional PyNone None ''<class 'NoneType'>'' = NoneType"
  by (simp add: typing_Optional_def typing_Union_def dedup_def)

text \<open>
  Claim C7, first as the specification words its second half: resolving the descriptor
  that \<open>resolve\<close> produced gives that descriptor back. It does not: the descriptor of
  \<open>List[int]\<close>, passed back in, resolves to \<open>any\<close>.
\<close>

theorem reresolution_counterexample:
  "parse_type_annotation
     (dict_annotation (parse_type_annotation (typing_List TInt None ''typing.List[int]'')))
     \<noteq> parse_type_annotation (typing_List TInt None ''typing.List[int]'')"
  by (simp add: typing_List_def dict_annotation_def)

text \<open>
  Claim C7, amended. For the forms \<open>List[T]\<close>, \<open>Dict[K, V]\<close> and \<open>Tuple[T1, ..., Tn]\<close> the
  resolver recurses into the arguments as \<open>typing\<close> stores them: \<open>list(resolve(T'))\<close>,
  \<open>dict(resolve(K'), resolve(V'))\<close>, the tuple of the \<open>resolve(Ti')\<close>, where the stored
  argument resolves as the parameter does unless the parameter is a string, which is
  stored as a \<open>ForwardRef\<close> and resolves to \<open>any\<close>. \<open>Optional[T]\<close> resolves to
  \<open>optional(resolve(T))\<close> when \<open>T\<close> is not a string, not a union and not the null type.
  Applied to a descriptor it produced, the resolver yields \<open>any\<close>.
\<close>

theorem resolve_generic_forms:
  "parse_type_annotation (typing_List T cls s) = KList (parse_type_annotation (typing_arg T))
   \<and> parse_type_annotation (typing_Dict K V cls s)
       = KDict (parse_type_annotation (typing_arg K)) (parse_type_annotation (typing_arg V))
   \<and> parse_type_annotation (typing_Tuple Ts cls s)
       = KTuple (map (\<lambda>T. parse_type_annotation (typing_arg T)) Ts)
   \<and> (\<not> is_string T \<longrightarrow> parse_type_annotation (typing_arg T) = parse_type_annotation T)
   \<and> (is_string T \<longrightarrow> parse_type_annotation (typing_arg T) = KAny)
   \<and> (\<not> is_string T \<and> \<not> is_union T \<and> T \<noteq> PyNone \<and> T \<noteq> NoneType \<longrightarrow>
        parse_type_annotation (typing_Optional T cls s) = KOptional (parse_type_annotation T))
   \<and> parse_type_annotation (dict_annotation (parse_type_annotation A)) = KAny"
proof -
  have 1: "parse_type_annotation (typing_List T cls s) = KList (parse_type_annotation (typing_arg T))"
    by (simp add: typing_List_def)
  have 2: "parse_type_annotation (typing_Dict K V cls s)
       = KDict (parse_type_annotation (typing_arg K)) (parse_type_annotation (typing_arg V))"
    by (simp add: typing_Dict_def)
  have 3: "parse_type_annotation (typing_Tuple Ts cls s)
       = KTuple (map (\<lambda>T. parse_type_annotation (typing_arg T)) Ts)"
    by (simp add: typing_Tuple_def comp_def)
  have 4: "\<not> is_string T \<longrightarrow> parse_type_annotation (typing_arg T) = parse_type_annotation T"
    and 5: "is_string T \<longrightarrow> parse_type_annotation (typing_arg T) = KAny"
    by (simp_all add: parse_typing_arg)
  have 6: "\<not> is_string T \<and> \<not> is_union T \<and> T \<noteq> PyNone \<and> T \<noteq> NoneType \<longrightarrow>
        parse_type_annotation (typing_Optional T cls s) = KOptional (parse_type_annotation T)"
    by (simp add: typing_Optional_plain parse_union)
  have 7: "parse_type_annotation (dict_annotation (parse_type_annotation A)) = KAny"
    by (simp add: dict_annotation_def)
  from 1 2 3 4 5 6 7 show ?thesis by (intro conjI)
qed

theorem resolve_generic_forms_witness:
  "\<not> is_string TInt
   \<and> parse_type_annotation (typing_List TInt None ''typing.List[int]'')
       = KList (KPrimitive ''int'')
   \<and> parse_type_annotation (typing_Dict TStr TFloat None ''typing.Dict[str, float]'')
       = KDict (KPrimitive ''str'') (KPrimitive ''float'')
   \<and> parse_type_annotation (typing_Tuple [TInt, TBool] None ''typing.Tuple[int, bool]'')
       = KTuple [KPrimitive ''int'', KPrimitive ''bool'']
   \<and> is_string (StrAnn ''int'')
   \<and> parse_type_annotation (typing_arg (StrAnn ''int'')) = KAny
   \<and> \<not> is_string TFloat \<and> \<not> is_union TFloat \<and> TFloat \<noteq> PyNone \<and> TFloat \<noteq> NoneType
   \<and> parse_type_annotation (typing_Optional TFloat None ''typing.Optional[float]'')
       = KOptional (KPrimitive ''float'')
   \<and> parse_type_annotation
        (dict_annotation (parse_type_annotation (typing_Optional TFloat None ''typing.Optional[float]'')))
       = KAny"
proof -
  have n: "\<not> is_string TInt" and st: "is_string (StrAnn ''int'')" by simp_all
  have h: "\<not> is_string TFloat \<and> \<not> is_union TFloat \<and> TFloat \<noteq> PyNone \<and> TFloat \<noteq> NoneType"
    by simp
  note g1 = resolve_generic_forms [where T = TInt and cls = None
      and s = "''typing.List[int]''"]
  note g2 = resolve_generic_forms [where K = TStr and V = TFloat and cls = None
      and s = "''typing.Dict[str, float]''"]
  note g3 = resolve_generic_forms [where Ts = "[TInt, TBool]" and cls = None
      and s = "''typing.Tuple[int, bool]''"]
  note g4 = resolve_generic_forms [where T = TFloat and cls = None
      and s = "''typing.Optional[float]''"
      and A = "typing_Optional TFloat None ''typing.Optional[float]''"]
  note g5 = resolve_generic_forms [where T = "StrAnn ''int''"]
  have a: "parse_type_annotation (typing_arg TInt) = parse_type_annotation TInt"
    using g1 [THEN conjunct2, THEN conjunct2, THEN conjunct2, THEN conjunct1, rule_format, OF n] .
  have 1: "parse_type_annotation (typing_List TInt None ''typing.List[int]'')
     = KList (KPrimitive ''int'')"
    using g1 [THEN conjunct1] a by simp
  have 2: "parse_type_annotation (typing_Dict TStr TFloat None ''typing.Dict[str, float]'')
       = KDict (KPrimitive ''str'') (KPrimitive ''float'')"
    using g2 [THEN conjunct2, THEN conjunct1] by simp
  have 3: "parse_type_annotation (typing_Tuple [TInt, TBool] None ''typing.Tuple[int, bool]'')
       = KTuple [KPrimitive ''int'', KPrimitive ''bool'']"
    using g3 [THEN conjunct2, THEN conjunct2, THEN conjunct1] by simp
  have 4: "parse_type_annotation (typing_arg (StrAnn ''int'')) = KAny"
    using g5 [THEN conjunct2, THEN conjunct2, THEN conjunct2, THEN conjunct2, THEN conjunct1,
        rule_format, OF st] .
  have 5: "parse_type_annotation (typing_Optional TFloat None ''typing.Optional[float]'')
       = KOptional (KPrimitive ''float'')"
    using g4 [THEN conjunct2, THEN conjunct2, THEN conjunct2, THEN conjunct2, THEN conjunct2,
        THEN conjunct1, rule_format, OF h]
    by simp
  have 6: "parse_type_annotation
        (dict_annotation (parse_type_annotation (typing_Optional TFloat None ''typing.Optional[float]'')))
       = KAny"
    by (rule g4 [THEN conjunct2, THEN conjunct2, THEN conjunct2, THEN conjunct2, THEN conjunct2,
          THEN conjunct2])
  from n 1 2 3 st 4 h 5 6 show ?thesis by (intro conjI) simp_all
qed

subsection \<open>Loops as list functions\<close>

lemma fold_append_acc:
  assumes "\<And>x acc. f x acc = acc @ f x []"
  shows "fold f xs acc = acc @ concat (map (\<lambda>x. f x []) xs)"
proof (induction xs arbitrary: acc)
  case Nil
  show ?case by simp
next
  case (Cons x xs)
  have "fold f (x # xs) acc = fold f xs (f x acc)" by simp
  also have "\<dots> = f x acc @ concat (map (\<lambda>x. f x []) xs)" by (rule Cons.IH)
  also have "f x acc = acc @ f x []" by (rule assms)
  finally show ?case by simp
qed

lemma fold_add_acc:
  assumes "\<And>x n. g x n = n + g x (0::nat)"
  shows "fold g xs n = n + sum_list (map (\<lambda>x. g x 0) xs)"
proof (induction xs arbitrary: n)
  case Nil
  show ?case by simp
next
  case (Cons x xs)
  have "fold g (x # xs) n = fold g xs (g x n)" by simp
  also have "\<dots> = g x n + sum_list (map (\<lambda>x. g x 0) xs)" by (rule Cons.IH)
  also have "g x n = n + g x 0" by (rule assms)
  finally show ?case by simp
qed

lemma params_loop_filter:
  "params_loop hints ps acc =
     acc @ map (param_info hints) (filter (\<lambda>p. param_name p \<noteq> ''self'') ps)"
  by (induction ps arbitrary: acc) simp_all

lemma missing_params_filter:
  "missing_params fn ps acc =
     acc @ map (\<lambda>p. fn @ ''.'' @ pd_name p) (filter (\<lambda>p. pd_type p = KAny) ps)"
  by (induction ps arbitrary: acc) simp_all

lemma missing_func_acc: "missing_func owner f acc = acc @ missing_func owner f []"
  by (simp add: missing_func_def Let_def missing_params_filter)

lemma missing_class_acc: "missing_class mn c acc = acc @ missing_class mn c []"
  unfolding missing_class_def
  using fold_append_acc [of "missing_func (mn @ ''.'' @ cd_name c)", OF missing_func_acc]
  by (metis append_Nil)

lemma missing_module_acc: "missing_module m acc = acc @ missing_module m []"
proof -
  have f: "fold (missing_func (md_name m)) (md_functions m) a
             = a @ concat (map (\<lambda>x. missing_func (md_name m) x []) (md_functions m))" for a
    by (rule fold_append_acc [OF missing_func_acc])
  have c: "fold (missing_class (md_name m)) (md_classes m) a
             = a @ concat (map (\<lambda>x. missing_class (md_name m) x []) (md_classes m))" for a
    by (rule fold_append_acc [OF missing_class_acc])
  show ?thesis unfolding missing_module_def
    by (simp add: c f [of acc] f [of "[]"])
qed

lemma missing_module_eq:
  "missing_module m [] =
     concat (map (\<lambda>f. missing_func (md_name m) f []) (md_functions m))
     @ concat (map (\<lambda>c. concat (map (\<lambda>f. missing_func (md_name m @ ''.'' @ cd_name c) f [])
                                  (cd_methods c))) (md_classes m))"
proof -
  have f: "fold (missing_func ow) fs a = a @ concat (map (\<lambda>x. missing_func ow x []) fs)" for a ow fs
    by (rule fold_append_acc [OF missing_func_acc])
  have c: "fold (missing_class (md_name m)) (md_classes m) a
             = a @ concat (map (\<lambda>x. missing_class (md_name m) x []) (md_classes m))" for a
    by (rule fold_append_acc [OF missing_class_acc])
  have k: "missing_class mn c [] = concat (map (\<lambda>f. missing_func (mn @ ''.'' @ cd_name c) f []) (cd_methods c))" for mn c
    unfolding missing_class_def by (simp add: f)
  show ?thesis unfolding missing_module_def
    by (simp add: c f k)
qed

lemma count_missing_eq:
  "count_missing_annotations ms = concat (map (\<lambda>m. missing_module m []) ms)"
  unfolding count_missing_annotations_def
  using fold_append_acc [of missing_module, OF missing_module_acc] by simp

lemma total_func_acc: "total_func f n = n + total_func f 0"
  by (simp add: total_func_def)

lemma total_methods_acc:
  "fold total_func fs n = n + sum_list (map (\<lambda>f. 1 + length (fd_params f)) fs)"
  using fold_add_acc [of total_func, OF total_func_acc] by (simp add: total_func_def)

lemma total_module_eq:
  "total_module m n = n + (sum_list (map (\<lambda>f. 1 + length (fd_params f)) (md_functions m))
     + sum_list (map (\<lambda>c. sum_list (map (\<lambda>f. 1 + length (fd_params f)) (cd_methods c))) (md_classes m)))"
proof -
  have g: "(\<lambda>cls. fold total_func (cd_methods cls)) c k
            = k + (\<lambda>cls. fold total_func (cd_methods cls)) c 0" for c k
    by (simp add: total_methods_acc)
  have c: "fold (\<lambda>cls. fold total_func (cd_methods cls)) cs k
            = k + sum_list (map (\<lambda>c. sum_list (map (\<lambda>f. 1 + length (fd_params f)) (cd_methods c))) cs)" for cs k
    using fold_add_acc [of "\<lambda>cls. fold total_func (cd_methods cls)" cs k, OF g]
    by (simp add: total_methods_acc)
  show ?thesis unfolding total_module_def
    by (simp only: c total_methods_acc add.assoc)
qed

lemma count_total_eq:
  "count_total_items ms =
     sum_list (map (\<lambda>m. sum_list (map (\<lambda>f. 1 + length (fd_params f)) (md_functions m))
       + sum_list (map (\<lambda>c. sum_list (map (\<lambda>f. 1 + length (fd_params f)) (cd_methods c))) (md_classes m))) ms)"
proof -
  have g: "total_module m n = n + total_module m 0" for m n
    by (simp add: total_module_eq)
  show ?thesis unfolding count_total_items_def
    using fold_add_acc [of total_module, OF g] by (simp add: total_module_eq)
qed

lemma length_missing_func: "length (missing_func ow f []) \<le> 1 + length (fd_params f)"
  by (simp add: missing_func_def Let_def missing_params_filter le_SucI)

lemma length_concat_le:
  assumes "\<And>x. x \<in> set xs \<Longrightarrow> length (f x) \<le> g x"
  shows "length (concat (map f xs)) \<le> sum_list (map g xs)"
  using assms by (induction xs) (auto simp: add_mono)

lemma missing_le_total: "length (count_missing_annotations ms) \<le> count_total_items ms"
proof -
  have m: "length (missing_module m []) \<le>
      sum_list (map (\<lambda>f. 1 + length (fd_params f)) (md_functions m))
       + sum_list (map (\<lambda>c. sum_list (map (\<lambda>f. 1 + length (fd_params f)) (cd_methods c))) (md_classes m))" for m
    unfolding missing_module_eq length_append
    by (intro add_mono length_concat_le length_missing_func)
  show ?thesis unfolding count_missing_eq count_total_eq
    by (rule length_concat_le) (rule m)
qed

subsection \<open>Parameters named self\<close>

text \<open>
  Claim C9. When the signature of a callable can be read, its descriptor lists the
  parameters whose name is not \<open>self\<close>, in order, and no others, wherever the
  parameter stands and whether or not the callable is a method.
\<close>

theorem self_parameters_excluded:
  assumes "fn_signature func = Some (parameters, ret)"
  shows "\<exists>d. extract_function_info func name = Some d
           \<and> fd_params d =
               map (param_info (case fn_hints func of Some h \<Rightarrow> h | None \<Rightarrow> []))
                 (filter (\<lambda>p. param_name p \<noteq> ''self'') parameters)
           \<and> map pd_name (fd_params d) =
               filter (\<lambda>n. n \<noteq> ''self'') (map param_name parameters)"
proof -
  have n: "pd_name (param_info h p) = param_name p" for h p
    by (simp add: param_info_def)
  show ?thesis
    using assms by (simp add: extract_function_info_def Let_def params_loop_filter n filter_map comp_def)
qed

theorem self_parameters_excluded_witness:
  "fn_signature scale_fn \<noteq> None
   \<and> map pd_name (fd_params (the (extract_function_info scale_fn ''scale''))) = [''x'']
   \<and> fn_signature build_fn \<noteq> None
   \<and> map pd_name (fd_params (the (extract_function_info build_fn ''build''))) = [''cls'', ''n'']"
proof -
  obtain ps r where s: "fn_signature scale_fn = Some (ps, r)"
    and ps: "map param_name ps = [''x'', ''self'']"
    by (simp add: scale_fn_def)
  obtain qs q where b: "fn_signature build_fn = Some (qs, q)"
    and qs: "map param_name qs = [''cls'', ''n'']"
    by (simp add: build_fn_def)
  from self_parameters_excluded [OF s, of "''scale''"] self_parameters_excluded [OF b, of "''build''"]
  show ?thesis using s b by (auto simp: ps qs)
qed

subsection \<open>The constructor among the methods\<close>












subsection \<open>Which symbols a module descriptor holds\<close>

text \<open>
  Claim C5, as the specification words it: a public name is included if and only if the
  object's \<open>__module__\<close> is the module's name or the name is exported. The string \<open>sep\<close>
  that \<open>tools\<close> imports from \<open>os\<close> has no \<open>__module__\<close> and is not exported, and it
  becomes a constant of \<open>tools\<close>.
\<close>

theorem imported_constant_counterexample:
  "\<not> py_startswith ''sep'' ''_''
   \<and> declared_module sep_obj \<noteq> Some (mod_name tools_module)
   \<and> ''sep'' \<notin> module_all tools_module
   \<and> module_step tools_module (''sep'', sep_obj) ([], [], [])
       = ([], [], [\<lparr>kd_name = ''sep'', kd_type = KPrimitive ''str'', kd_value = Some (py_quote ''/'')\<rparr>])"
  by (simp add: sep_obj_def tools_module_def module_all_def const_value_def)

text \<open>
  Claim C5, amended. A name of the module's directory adds a descriptor exactly when it
  does not start with an underscore, its value is not \<open>None\<close>, the value has no
  \<open>__module__\<close> attribute or one equal to the module's \<open>__name__\<close> or the name is in
  \<open>__all__\<close>, and the value is a function with a readable signature, a class or not
  callable. So a symbol whose \<open>__module__\<close> names another module and that is not in
  \<open>__all__\<close> is excluded.
\<close>

theorem module_step_inclusion:
  "(module_step m (name, obj) (fs, cs, ks) \<noteq> (fs, cs, ks) \<longleftrightarrow>
      \<not> py_startswith name ''_''
      \<and> (\<exists>dm kind. obj = ObjOf dm kind
            \<and> (dm = None \<or> dm = Some (mod_name m) \<or> name \<in> module_all m)
            \<and> described name kind))
   \<and> (declared_module obj = Some other \<and> other \<noteq> mod_name m \<and> name \<notin> module_all m
        \<longrightarrow> module_step m (name, obj) (fs, cs, ks) = (fs, cs, ks))"
proof (cases obj)
  case ObjNone
  then show ?thesis by simp
next
  case (ObjOf dm kind)
  then show ?thesis by (cases kind) (auto split: option.splits)
qed

theorem module_step_inclusion_witness:
  "module_step tools_module (''run'', ObjOf (Some ''tools'') (IsFunction run_fn)) ([], [], []) \<noteq> ([], [], [])
   \<and> module_step tools_module (''PORTS'', ports_obj) ([], [], []) \<noteq> ([], [], [])
   \<and> declared_module sqrt_obj = Some ''math'' \<and> ''math'' \<noteq> mod_name tools_module
   \<and> ''sqrt'' \<notin> module_all tools_module
   \<and> module_step tools_module (''sqrt'', sqrt_obj) ([], [], []) = ([], [], [])"
proof -
  have r: "extract_function_info run_fn ''run'' \<noteq> None"
    by (simp add: run_fn_def extract_function_info_def)
  have n: "mod_name tools_module = ''tools''" by (simp add: tools_module_def)
  have h: "declared_module sqrt_obj = Some ''math'' \<and> ''math'' \<noteq> mod_name tools_module
           \<and> ''sqrt'' \<notin> module_all tools_module"
    by (simp add: sqrt_obj_def tools_module_def module_all_def)
  have e1: "\<not> py_startswith ''run'' ''_''
      \<and> (\<exists>dm kind. ObjOf (Some ''tools'') (IsFunction run_fn) = ObjOf dm kind
            \<and> (dm = None \<or> dm = Some (mod_name tools_module) \<or> ''run'' \<in> module_all tools_module)
            \<and> described ''run'' kind)"
    by (rule conjI, simp, rule exI [of _ "Some ''tools''"], rule exI [of _ "IsFunction run_fn"])
      (simp add: r n)
  have e2: "\<not> py_startswith ''PORTS'' ''_''
      \<and> (\<exists>dm kind. ports_obj = ObjOf dm kind
            \<and> (dm = None \<or> dm = Some (mod_name tools_module) \<or> ''PORTS'' \<in> module_all tools_module)
            \<and> described ''PORTS'' kind)"
    unfolding ports_obj_def
    by (rule conjI, simp, rule exI [of _ None], rule exI, rule conjI, rule refl) simp
  have 1: "module_step tools_module (''run'', ObjOf (Some ''tools'') (IsFunction run_fn)) ([], [], []) \<noteq> ([], [], [])"
    by (rule module_step_inclusion [of tools_module "''run''" _ "[]" "[]" "[]" "''x''",
          THEN conjunct1, THEN iffD2, OF e1])
  have 2: "module_step tools_module (''PORTS'', ports_obj) ([], [], []) \<noteq> ([], [], [])"
    by (rule module_step_inclusion [of tools_module "''PORTS''" _ "[]" "[]" "[]" "''x''",
          THEN conjunct1, THEN iffD2, OF e2])
  have 3: "module_step tools_module (''sqrt'', sqrt_obj) ([], [], []) = ([], [], [])"
    by (rule module_step_inclusion [of tools_module "''sqrt''" sqrt_obj "[]" "[]" "[]" "''math''",
          THEN conjunct2, rule_format, OF h])
  from 1 2 3 h show ?thesis by (intro conjI) simp_all
qed

subsection \<open>The value of a constant\<close>

text \<open>
  Claim C6, as the specification words it: the value is omitted whenever the value is a
  \<open>dict\<close> or a \<open>list\<close>. The list \<open>PORTS = [1, 2]\<close> of \<open>tools\<close> keeps its representation.
\<close>

theorem short_list_counterexample:
  "extract_module_info tools_module ''tools'' = Returns (module_info tools_module ''tools'')
   \<and> md_constants (module_info tools_module ''tools'')
     = [\<lparr>kd_name = ''PORTS'', kd_type = KClass ''list'', kd_value = Some ''[1, 2]''\<rparr>,
        \<lparr>kd_name = ''sep'', kd_type = KPrimitive ''str'', kd_value = Some (py_quote ''/'')\<rparr>]"
  by (simp add: extract_module_info_def module_info_def tools_module_def ports_obj_def
      sep_obj_def sqrt_obj_def run_fn_def module_all_def const_value_def
      extract_function_info_def Let_def hints_get_def)

text \<open>
  Claim C6, amended. The value of a constant descriptor is omitted exactly when the
  value is a \<open>dict\<close> or a \<open>list\<close> and its \<open>repr\<close> has 100 characters or more; a value
  that is not such a container, however long its \<open>repr\<close>, and a container whose \<open>repr\<close>
  is shorter than 100 characters keep their \<open>repr\<close>.
\<close>

theorem constant_value_rule:
  "(const_value v = None \<longleftrightarrow> val_is_dict_or_list v \<and> 100 \<le> length (val_repr v))
   \<and> (const_value v \<noteq> None \<longrightarrow> const_value v = Some (val_repr v))
   \<and> (\<not> py_startswith name ''_'' \<and> (dm = None \<or> dm = Some (mod_name m) \<or> name \<in> module_all m) \<longrightarrow>
        module_step m (name, ObjOf dm (IsValue v)) (fs, cs, ks)
          = (fs, cs, ks @ [\<lparr>kd_name = name, kd_type = parse_type_annotation (val_type v),
                              kd_value = const_value v\<rparr>]))"
  by (auto simp: const_value_def)

theorem constant_value_rule_witness:
  "val_is_dict_or_list codes_value \<and> 100 \<le> length (val_repr codes_value)
   \<and> const_value codes_value = None
   \<and> 100 \<le> length (val_repr banner_value)
   \<and> const_value banner_value = Some (val_repr banner_value)
   \<and> \<not> py_startswith ''BANNER'' ''_''
   \<and> module_step tools_module (''BANNER'', ObjOf None (IsValue banner_value)) ([], [], [])
       = ([], [], [\<lparr>kd_name = ''BANNER'', kd_type = KPrimitive ''str'',
                     kd_value = Some (val_repr banner_value)\<rparr>])"
proof -
  have c: "val_is_dict_or_list codes_value \<and> 100 \<le> length (val_repr codes_value)"
    by (simp add: codes_value_def)
  have 1: "const_value codes_value = None"
    by (rule constant_value_rule [of codes_value "''x''" None tools_module "[]" "[]" "[]",
          THEN conjunct1, THEN iffD2, OF c])
  have l: "100 \<le> length (val_repr banner_value)"
    by (simp add: banner_value_def py_quote_def)
  have nn: "const_value banner_value \<noteq> None"
    using constant_value_rule [of banner_value "''x''" None tools_module "[]" "[]" "[]",
          THEN conjunct1]
    by (simp add: banner_value_def)
  have 2: "const_value banner_value = Some (val_repr banner_value)"
    by (rule constant_value_rule [of banner_value "''x''" None tools_module "[]" "[]" "[]",
          THEN conjunct2, THEN conjunct1, rule_format, OF nn])
  have p: "\<not> py_startswith ''BANNER'' ''_''
           \<and> (None = None \<or> None = Some (mod_name tools_module) \<or> ''BANNER'' \<in> module_all tools_module)"
    by simp
  have t: "parse_type_annotation (val_type banner_value) = KPrimitive ''str''"
    by (simp add: banner_value_def)
  have 3: "module_step tools_module (''BANNER'', ObjOf None (IsValue banner_value)) ([], [], [])
       = ([], [], [\<lparr>kd_name = ''BANNER'', kd_type = KPrimitive ''str'',
                     kd_value = Some (val_repr banner_value)\<rparr>])"
    using constant_value_rule [of banner_value "''BANNER''" None tools_module "[]" "[]" "[]",
          THEN conjunct2, THEN conjunct2, rule_format, OF p]
    by (simp only: t 2 append_Nil)
  from c 1 l 2 p 3 show ?thesis by (intro conjI) simp_all
qed

subsection \<open>Rounding of floats\<close>

lemma round_half_even_le:
  assumes "0 < q" and "p \<le> n * q"
  shows "round_half_even p q \<le> n"
proof -
  have d: "p = (p div q) * q + p mod q" by simp
  have r: "0 \<le> p mod q" "p mod q < q" using assms(1) by simp_all
  have f: "p div q \<le> n"
  proof (rule ccontr)
    assume "\<not> p div q \<le> n"
    then have "n + 1 \<le> p div q" by simp
    then have "(n + 1) * q \<le> (p div q) * q" using assms(1) by (simp add: mult_right_mono)
    also have "\<dots> \<le> p" using d r(1) by linarith
    finally show False using assms by (simp add: algebra_simps)
  qed
  show ?thesis
  proof (cases "p div q = n")
    case True
    then have "p mod q = 0" using d assms(2) r(1) by (metis add_le_same_cancel1 order_antisym)
    then show ?thesis using True assms(1) by (simp add: round_half_even_def Let_def)
  next
    case False
    with f have "p div q + 1 \<le> n" by simp
    then show ?thesis using f by (simp add: round_half_even_def Let_def)
  qed
qed

lemma round_half_even_less:
  assumes "0 < q" and "2 * p < (2 * n + 1) * q"
  shows "round_half_even p q \<le> n"
proof -
  have d: "p = (p div q) * q + p mod q" by simp
  have r: "0 \<le> p mod q" "p mod q < q" using assms(1) by simp_all
  have f: "p div q \<le> n"
  proof (rule ccontr)
    assume "\<not> p div q \<le> n"
    then have "n + 1 \<le> p div q" by simp
    then have "(n + 1) * q \<le> (p div q) * q" using assms(1) by (simp add: mult_right_mono)
    also have "\<dots> \<le> p" using d r(1) by linarith
    finally have "2 * ((n + 1) * q) \<le> 2 * p" by simp
    then show False using assms by (simp add: algebra_simps)
  qed
  show ?thesis
  proof (cases "p div q = n")
    case True
    have "2 * p = 2 * (n * q) + 2 * (p mod q)" using d True by (metis distrib_left)
    then have "2 * (p mod q) < q" using assms(2) by (simp add: algebra_simps)
    then show ?thesis using True by (simp add: round_half_even_def Let_def)
  next
    case False
    with f have "p div q + 1 \<le> n" by simp
    then show ?thesis using f by (simp add: round_half_even_def Let_def)
  qed
qed

lemma round_half_even_exact:
  assumes "0 < q"
  shows "round_half_even (n * q) q = n"
  using assms by (simp add: round_half_even_def Let_def)

subsection \<open>Binary digits\<close>

lemma bit_length_bounds:
  "0 < n \<Longrightarrow> 2 * 2 ^ bit_length n \<le> 4 * n \<and> n < 2 ^ bit_length n"
proof (induction n rule: bit_length.induct)
  case (1 n)
  have b: "bit_length n = Suc (bit_length (n div 2))"
    using "1.prems" by (subst bit_length.simps) simp
  show ?case
  proof (cases "n div 2 \<le> 0")
    case True
    with "1.prems" have n: "n = 1" by linarith
    have "bit_length (n div 2) = 0" using True by (subst bit_length.simps) simp
    then show ?thesis unfolding b using n by simp
  next
    case False
    then have h: "0 < n div 2" by simp
    have nz: "\<not> n \<le> 0" using "1.prems" by simp
    have ih: "2 * 2 ^ bit_length (n div 2) \<le> 4 * (n div 2) \<and> n div 2 < 2 ^ bit_length (n div 2)"
      using "1.IH" [OF nz h] .
    define k :: int where "k = 2 ^ bit_length (n div 2)"
    have lo: "2 * k \<le> 4 * (n div 2)" and hi: "n div 2 < k" using ih unfolding k_def by simp_all
    have "2 * (2 * k) \<le> 4 * n" using lo by linarith
    moreover have "n < 2 * k" using hi by linarith
    ultimately show ?thesis unfolding b k_def by simp
  qed
qed


subsection \<open>The nearest double\<close>

lemma pow2_pos: "0 < pow2 e"
  by (simp add: pow2_def)

lemma pow2_ratio: "(of_int (pow2 e) :: rat) / of_int (pow2 (- e)) = 2 powi e"
proof (cases "0 \<le> e")
  case True
  then show ?thesis by (simp add: pow2_def power_int_def)
next
  case False
  then show ?thesis by (simp add: pow2_def power_int_def field_simps)
qed

lemma scaled_fraction:
  "(of_int (p * pow2 (- e)) :: rat) / of_int (q * pow2 e) = of_int p / of_int q * 2 powi (- e)"
proof -
  have "(of_int (p * pow2 (- e)) :: rat) / of_int (q * pow2 e)
          = of_int p / of_int q * (of_int (pow2 (- e)) / of_int (pow2 (- (- e))))"
    by simp
  then show ?thesis by (simp only: pow2_ratio)
qed

lemma powi_two_pos: "0 < (2::rat) powi e"
  by simp

lemma powi_two_split: "(2::rat) powi (a + b) = 2 powi a * 2 powi b"
  by (simp add: power_int_add)

text \<open>The exponent is the one for which the scaled fraction is at least \<open>2 ** 52\<close>.\<close>

lemma nearest_double_normal:
  assumes "0 < p" and "0 < q"
  shows "2 ^ 52 * 2 powi (snd (nearest_double p q)) \<le> (of_int p :: rat) / of_int q"
proof -
  define bp where "bp = bit_length p"
  define bq where "bq = bit_length q"
  define e0 where "e0 = int bp - int bq - 53"
  define x where "x = (of_int p :: rat) / of_int q"
  have qpos: "0 < (of_int q :: rat)" using assms(2) by simp
  have xpos: "0 < x" unfolding x_def using assms by simp
  have bpl: "(2::int) ^ bp \<le> 2 * p" and bqu: "q < 2 ^ bq"
    using bit_length_bounds [OF assms(1)] bit_length_bounds [OF assms(2)]
    unfolding bp_def bq_def by simp_all
  have bpl': "(2::rat) ^ bp \<le> 2 * of_int p"
  proof -
    have "(of_int (2 ^ bp) :: rat) \<le> of_int (2 * p)" using bpl by (simp only: of_int_le_iff)
    then show ?thesis by simp
  qed
  have bqu': "(of_int q :: rat) \<le> 2 ^ bq"
  proof -
    have "(of_int q :: rat) \<le> of_int (2 ^ bq)" using bqu by (simp only: of_int_le_iff)
    then show ?thesis by simp
  qed
  have e0': "e0 + 53 + int bq = int bp" unfolding e0_def by simp
  have "(2::rat) powi (e0 + 53 + int bq) = 2 powi int bp" by (simp only: e0')
  then have split: "(2::rat) powi e0 * 2 ^ 53 * 2 ^ bq = 2 ^ bp"
    by (simp add: powi_two_split)
  have a: "2 ^ 52 * 2 powi e0 \<le> x"
  proof -
    have "2 ^ 52 * 2 powi e0 * of_int q \<le> 2 ^ 52 * 2 powi e0 * (2::rat) ^ bq"
      using bqu' by (intro mult_left_mono) simp_all
    also have "2 * \<dots> = 2 ^ bp" using split by simp
    finally have "2 * (2 ^ 52 * 2 powi e0 * of_int q) \<le> (2::rat) ^ bp"
      by simp
    with bpl' have "2 ^ 52 * 2 powi e0 * of_int q \<le> (of_int p :: rat)" by simp
    then show ?thesis unfolding x_def using qpos by (simp add: pos_le_divide_eq)
  qed
  have nd: "snd (nearest_double p q)
      = (if 2 ^ 53 * (q * pow2 e0) \<le> p * pow2 (- e0) then e0 + 1 else e0)"
    using assms(1) unfolding nearest_double_def Let_def e0_def bp_def bq_def by simp
  show ?thesis
  proof (cases "2 ^ 53 * (q * pow2 e0) \<le> p * pow2 (- e0)")
    case False
    then show ?thesis using a unfolding nd x_def by simp
  next
    case True
    have den: "0 < (of_int (q * pow2 e0) :: rat)" using assms(2) pow2_pos [of e0] by simp
    have "(of_int (2 ^ 53 * (q * pow2 e0)) :: rat) \<le> of_int (p * pow2 (- e0))"
      using True by (simp only: of_int_le_iff)
    then have "(2 ^ 53 :: rat) * of_int (q * pow2 e0) \<le> of_int (p * pow2 (- e0))" by simp
    then have "(2 ^ 53 :: rat) \<le> of_int (p * pow2 (- e0)) / of_int (q * pow2 e0)"
      using den by (simp only: pos_le_divide_eq)
    then have "(2 ^ 53 :: rat) \<le> x * 2 powi (- e0)" unfolding scaled_fraction x_def .
    then have "(2 ^ 53 :: rat) * 2 powi e0 \<le> x * 2 powi (- e0) * 2 powi e0"
      by (intro mult_right_mono) simp_all
    also have "\<dots> = x" by (simp add: power_int_minus)
    finally have "2 ^ 52 * 2 powi (e0 + 1) \<le> x" by (simp add: powi_two_split)
    then show ?thesis using True unfolding nd x_def by simp
  qed
qed


lemma nearest_double_fst:
  "p \<noteq> 0 \<Longrightarrow> fst (nearest_double p q)
     = round_half_even (p * pow2 (- snd (nearest_double p q))) (q * pow2 (snd (nearest_double p q)))"
  by (simp add: nearest_double_def Let_def)

text \<open>Rounding to the nearest double never crosses a double: a fraction bounded by a
  value \<open>M * 2 ** E\<close> with \<open>M\<close> of at most 53 bits rounds to at most that value.\<close>

lemma nearest_double_le:
  assumes q: "0 < q"
    and b: "(of_int p :: rat) / of_int q \<le> of_int M * 2 powi E"
    and M: "0 \<le> M" "M \<le> 2 ^ 53"
  shows "float_value (nearest_double p q) \<le> of_int M * 2 powi E"
proof -
  define e where "e = snd (nearest_double p q)"
  define m where "m = fst (nearest_double p q)"
  define x where "x = (of_int p :: rat) / of_int q"
  have fv: "float_value (nearest_double p q) = of_int m * 2 powi e"
    by (simp add: float_value_def m_def e_def)
  have den: "0 < q * pow2 e" using q pow2_pos [of e] by simp
  have den': "0 < (of_int (q * pow2 e) :: rat)" using den by (simp only: of_int_0_less_iff)
  have bound_nonneg: "0 \<le> (of_int M :: rat) * 2 powi E" using M(1) by simp
  have via: "m \<le> n" if "x * 2 powi (- e) \<le> of_int n" and "p \<noteq> 0" for n
  proof -
    have "(of_int (p * pow2 (- e)) :: rat) / of_int (q * pow2 e) \<le> of_int n"
      using that(1) unfolding scaled_fraction x_def .
    then have "(of_int (p * pow2 (- e)) :: rat) \<le> of_int n * of_int (q * pow2 e)"
      using den' by (simp only: pos_divide_le_eq)
    then have "(of_int (p * pow2 (- e)) :: rat) \<le> of_int (n * (q * pow2 e))"
      by (simp only: of_int_mult)
    then have "p * pow2 (- e) \<le> n * (q * pow2 e)" by (simp only: of_int_le_iff)
    from round_half_even_le [OF den this] show ?thesis
      unfolding m_def e_def using nearest_double_fst [OF that(2)] by simp
  qed
  consider "p = 0" | "p < 0" | "0 < p" by linarith
  then show ?thesis
  proof cases
    case 1
    then show ?thesis using bound_nonneg by (simp add: nearest_double_def float_value_def)
  next
    case 2
    then have "x \<le> 0" unfolding x_def using q by (simp add: divide_le_0_iff)
    then have "x * 2 powi (- e) \<le> of_int 0"
      by (simp add: mult_le_0_iff)
    from via [OF this] 2 have "m \<le> 0" by simp
    then have "(of_int m :: rat) * 2 powi e \<le> 0" by (simp add: mult_le_0_iff)
    with bound_nonneg show ?thesis unfolding fv by linarith
  next
    case 3
    have low: "2 ^ 52 * 2 powi e \<le> x"
      unfolding e_def x_def by (rule nearest_double_normal [OF 3 q])
    show ?thesis
    proof (cases "e \<le> E")
      case True
      define N where "N = M * 2 ^ nat (E - e)"
      have pw: "(2::rat) powi (E - e) = 2 ^ nat (E - e)"
        using True by (simp add: power_int_def)
      have Es: "(2::rat) powi E = 2 powi (E - e) * 2 powi e"
        by (simp add: powi_two_split [symmetric])
      have N': "(of_int N :: rat) = of_int M * 2 powi (E - e)"
        unfolding N_def pw by simp
      have "x * 2 powi (- e) \<le> of_int M * 2 powi E * 2 powi (- e)"
        using b unfolding x_def by (intro mult_right_mono) simp_all
      also have "\<dots> = of_int N" unfolding N' Es by (simp add: power_int_minus)
      finally have "m \<le> N" using via 3 by simp
      then have "(of_int m :: rat) \<le> of_int N" by (simp only: of_int_le_iff)
      then have "(of_int m :: rat) * 2 powi e \<le> of_int N * 2 powi e"
        by (intro mult_right_mono) simp_all
      also have "\<dots> = of_int M * 2 powi E" unfolding N' Es by simp
      finally show ?thesis unfolding fv .
    next
      case False
      then have "E + 1 \<le> e" by simp
      then have "(2::rat) powi (E + 1) \<le> 2 powi e"
        by (intro power_int_increasing) simp_all
      then have two: "2 * (2::rat) powi E \<le> 2 powi e" by (simp add: powi_two_split)
      have "(of_int M :: rat) \<le> of_int (2 ^ 53)" using M(2) by (simp only: of_int_le_iff)
      then have "(of_int M :: rat) \<le> 2 ^ 53" by simp
      then have "(of_int M :: rat) * 2 powi E \<le> 2 ^ 53 * 2 powi E"
        by (intro mult_right_mono) simp_all
      also have "\<dots> \<le> 2 ^ 52 * 2 powi e" using two by simp
      finally have up: "(of_int M :: rat) * 2 powi E \<le> 2 ^ 52 * 2 powi e" .
      have "x \<le> 2 ^ 52 * 2 powi e" using b up unfolding x_def by linarith
      then have "x * 2 powi (- e) \<le> 2 ^ 52 * 2 powi e * 2 powi (- e)"
        by (intro mult_right_mono) simp_all
      also have "\<dots> = of_int (2 ^ 52)" by (simp add: power_int_minus)
      finally have "m \<le> 2 ^ 52" using via 3 by simp
      then have "(of_int m :: rat) \<le> of_int (2 ^ 52)" by (simp only: of_int_le_iff)
      then have "(of_int m :: rat) \<le> 2 ^ 52" by simp
      then have "(of_int m :: rat) * 2 powi e \<le> 2 ^ 52 * 2 powi e"
        by (intro mult_right_mono) simp_all
      also have "\<dots> \<le> x" by (rule low)
      also have "\<dots> \<le> of_int M * 2 powi E" using b unfolding x_def .
      finally show ?thesis unfolding fv .
    qed
  qed
qed


subsection \<open>Bounds on the float operations\<close>

lemma float_div_le:
  "0 < b \<Longrightarrow> (of_int a :: rat) / of_int b \<le> of_int M * 2 powi E \<Longrightarrow> 0 \<le> M \<Longrightarrow> M \<le> 2 ^ 53
     \<Longrightarrow> float_value (float_div a b) \<le> of_int M * 2 powi E"
  unfolding float_div_def by (rule nearest_double_le)

lemma float_mul_int_value:
  "float_value (float_mul_int x n) = float_value (nearest_double (fst x * n) 1) * 2 powi (snd x)"
  by (simp add: float_mul_int_def float_value_def powi_two_split split: prod.split)

lemma float_mul_int_le:
  assumes b: "float_value x * of_int n \<le> of_int M * 2 powi E"
    and M: "0 \<le> M" "M \<le> 2 ^ 53"
  shows "float_value (float_mul_int x n) \<le> of_int M * 2 powi E"
proof -
  define s where "s = snd x"
  have Es: "(2::rat) powi E = 2 powi (E - s) * 2 powi s"
    by (simp add: powi_two_split [symmetric])
  have "(of_int (fst x) :: rat) * 2 powi s * of_int n \<le> of_int M * 2 powi E"
    using b by (simp add: float_value_def s_def)
  then have "(of_int (fst x) :: rat) * 2 powi s * of_int n * 2 powi (- s)
               \<le> of_int M * 2 powi E * 2 powi (- s)"
    by (intro mult_right_mono) simp_all
  then have "(of_int (fst x * n) :: rat) / of_int 1 \<le> of_int M * 2 powi (E - s)"
    unfolding Es by (simp add: power_int_minus)
  from nearest_double_le [OF _ this M]
  have "float_value (nearest_double (fst x * n) 1) \<le> of_int M * 2 powi (E - s)" by simp
  then have "float_value (nearest_double (fst x * n) 1) * 2 powi s
               \<le> of_int M * 2 powi (E - s) * 2 powi s"
    by (intro mult_right_mono) simp_all
  then show ?thesis unfolding float_mul_int_value s_def [symmetric] Es by simp
qed

lemma hundredths_ratio:
  "(of_int (fst x * 100 * pow2 (snd x)) :: rat) = float_value x * 100 * of_int (pow2 (- snd x))"
proof -
  have "(of_int (pow2 (- snd x)) :: rat) \<noteq> 0" using pow2_pos [of "- snd x"] by simp
  then have "(of_int (pow2 (snd x)) :: rat) = 2 powi (snd x) * of_int (pow2 (- snd x))"
    using pow2_ratio [of "snd x"] by (simp add: field_simps)
  then show ?thesis by (simp add: float_value_def)
qed

lemma hundredths_le:
  assumes "float_value x * 100 \<le> of_int n"
  shows "round_half_even (fst x * 100 * pow2 (snd x)) (pow2 (- snd x)) \<le> n"
proof -
  have "float_value x * 100 * of_int (pow2 (- snd x)) \<le> of_int n * of_int (pow2 (- snd x))"
    using assms pow2_pos [of "- snd x"] by (intro mult_right_mono) simp_all
  then have "(of_int (fst x * 100 * pow2 (snd x)) :: rat) \<le> of_int (n * pow2 (- snd x))"
    unfolding hundredths_ratio by simp
  then have "fst x * 100 * pow2 (snd x) \<le> n * pow2 (- snd x)" by (simp only: of_int_le_iff)
  from round_half_even_le [OF pow2_pos this] show ?thesis .
qed

lemma hundredths_less:
  assumes "2 * (float_value x * 100) < 2 * of_int n + 1"
  shows "round_half_even (fst x * 100 * pow2 (snd x)) (pow2 (- snd x)) \<le> n"
proof -
  have "2 * (float_value x * 100) * of_int (pow2 (- snd x))
          < (2 * of_int n + 1) * of_int (pow2 (- snd x))"
    using assms pow2_pos [of "- snd x"] by (intro mult_strict_right_mono) simp_all
  then have "(of_int (2 * (fst x * 100 * pow2 (snd x))) :: rat)
               < of_int ((2 * n + 1) * pow2 (- snd x))"
    unfolding of_int_mult [of 2] hundredths_ratio by simp
  then have "2 * (fst x * 100 * pow2 (snd x)) < (2 * n + 1) * pow2 (- snd x)"
    by (simp only: of_int_less_iff)
  from round_half_even_less [OF pow2_pos this] show ?thesis .
qed

lemma float_round2_le:
  assumes k: "round_half_even (fst x * 100 * pow2 (snd x)) (pow2 (- snd x)) \<le> n"
    and b: "(of_int n :: rat) / 100 \<le> of_int M * 2 powi E"
    and M: "0 \<le> M" "M \<le> 2 ^ 53"
  shows "float_value (float_round2 x) \<le> of_int M * 2 powi E"
proof -
  define k where "k = round_half_even (fst x * 100 * pow2 (snd x)) (pow2 (- snd x))"
  have "(of_int k :: rat) \<le> of_int n" using k unfolding k_def by (simp only: of_int_le_iff)
  then have "(of_int k :: rat) / of_int 100 \<le> of_int n / 100" by (simp add: divide_right_mono)
  with b have "(of_int k :: rat) / of_int 100 \<le> of_int M * 2 powi E" by linarith
  from nearest_double_le [OF _ this M] show ?thesis
    unfolding float_round2_def k_def by simp
qed


subsection \<open>Bounds on the coverage\<close>

lemmas float_eval = float_round2_def float_mul_int_def float_div_def nearest_double_def
  round_half_even_def pow2_def Let_def bit_length.simps

lemma nearest_double_same:
  assumes "0 < t"
  shows "nearest_double t t = (2 ^ 52, - 52)"
proof -
  have "round_half_even (2 ^ 52 * t) t = 2 ^ 52"
    by (rule round_half_even_exact [OF assms])
  then have "round_half_even (t * 4503599627370496) t = 4503599627370496"
    by (simp add: mult.commute)
  then show ?thesis using assms
    by (simp add: nearest_double_def Let_def pow2_def)
qed

lemma hundred_percent:
  "float_round2 (float_mul_int (2 ^ 52, - 52) 100) = (7036874417766400, - 46)"
  by (simp add: float_eval)

lemma coverage_full:
  "number_value (py_round2 (coverage_of t 0)) = 100"
proof (cases "0 < t")
  case False
  then show ?thesis by (simp add: coverage_of_def)
next
  case True
  then have "float_div (int t) (int t) = (2 ^ 52, - 52)"
    unfolding float_div_def by (intro nearest_double_same) simp
  then have "py_round2 (coverage_of t 0) = PyFloat (7036874417766400, - 46)"
    using True hundred_percent by (simp add: coverage_of_def)
  then show ?thesis by (simp add: float_value_def power_int_minus)
qed

lemma coverage_none:
  "number_value (py_round2 (coverage_of 0 n)) = 100"
  by (simp add: coverage_of_def)

lemma coverage_le_100:
  "number_value (py_round2 (coverage_of t n)) \<le> 100"
proof (cases "0 < t")
  case False
  then show ?thesis by (simp add: coverage_of_def)
next
  case True
  define d where "d = float_div (int t - int n) (int t)"
  define y where "y = float_mul_int d 100"
  have "(of_int (int t - int n) :: rat) / of_int (int t) \<le> of_int (2 ^ 52) * 2 powi (- 52)"
    using True by (simp add: power_int_minus pos_divide_le_eq)
  from float_div_le [OF _ this] True have d: "float_value d \<le> 1"
    unfolding d_def by (simp add: power_int_minus)
  then have "float_value d * of_int 100 \<le> of_int 7036874417766400 * 2 powi (- 46)"
    by (simp add: power_int_minus)
  from float_mul_int_le [OF this] have y: "float_value y \<le> 100"
    unfolding y_def by (simp add: power_int_minus)
  then have "float_value y * 100 \<le> of_int 10000" by simp
  from float_round2_le [OF hundredths_le [OF this], of 7036874417766400 "- 46"]
  have "float_value (float_round2 y) \<le> 100" by (simp add: power_int_minus)
  then show ?thesis using True by (simp add: coverage_of_def y_def d_def)
qed

lemma coverage_less_100:
  assumes "0 < n" and "0 < t" and "t \<le> 19999 * n"
  shows "number_value (py_round2 (coverage_of t n)) < 100"
proof -
  define d where "d = float_div (int t - int n) (int t)"
  define y where "y = float_mul_int d 100"
  have tpos: "0 < (of_nat t :: rat)" using assms(2) by simp
  have "(of_nat t :: rat) \<le> of_nat (19999 * n)" using assms(3) by (simp only: of_nat_le_iff)
  then have "(of_nat t :: rat) \<le> 19999 * of_nat n" by simp
  then have "19999 * ((of_nat t :: rat) - of_nat n) \<le> 19998 * of_nat t" by simp
  then have "((of_nat t :: rat) - of_nat n) / of_nat t \<le> 19998 / 19999"
    using tpos by (simp add: pos_divide_le_eq)
  also have "(19998 / 19999 :: rat) \<le> of_int 9006748872259131 * 2 powi (- 53)"
    by (simp add: power_int_minus)
  finally have "(of_int (int t - int n) :: rat) / of_int (int t)
                  \<le> of_int 9006748872259131 * 2 powi (- 53)" by simp
  from float_div_le [OF _ this] assms(2)
  have d: "float_value d \<le> of_int 9006748872259131 * 2 powi (- 53)"
    unfolding d_def by simp
  then have "float_value d * of_int 100 \<le> of_int 7036522556452447 * 2 powi (- 46)"
    by (simp add: power_int_minus)
  from float_mul_int_le [OF this]
  have y: "float_value y \<le> of_int 7036522556452447 * 2 powi (- 46)"
    unfolding y_def by simp
  then have "2 * (float_value y * 100) < 2 * of_int 9999 + 1"
    by (simp add: power_int_minus)
  from float_round2_le [OF hundredths_less [OF this], of 12799 "- 7"]
  have "float_value (float_round2 y) \<le> of_int 12799 * 2 powi (- 7)"
    by (simp add: power_int_minus)
  then have "float_value (float_round2 y) < 100" by (simp add: power_int_minus)
  then show ?thesis using assms(2) by (simp add: coverage_of_def y_def d_def)
qed

subsection \<open>The error of the float operations\<close>

lemma round_half_even_error:
  assumes "0 < q"
  shows "\<bar>2 * (round_half_even p q * q) - 2 * p\<bar> \<le> q"
proof -
  define f where "f = p div q"
  define r where "r = p mod q"
  have d: "p = f * q + r" unfolding f_def r_def by simp
  have r: "0 \<le> r" "r < q" using assms unfolding r_def by simp_all
  have v: "round_half_even p q = f \<and> 2 * r \<le> q \<or> round_half_even p q = f + 1 \<and> q \<le> 2 * r"
    unfolding round_half_even_def Let_def f_def [symmetric] r_def [symmetric] by auto
  then show ?thesis
  proof
    assume a: "round_half_even p q = f \<and> 2 * r \<le> q"
    then have "2 * (round_half_even p q * q) - 2 * p = - (2 * r)" using d by simp
    then show ?thesis using a r by simp
  next
    assume a: "round_half_even p q = f + 1 \<and> q \<le> 2 * r"
    then have "2 * (round_half_even p q * q) - 2 * p = 2 * q - 2 * r"
      using d by (simp add: algebra_simps)
    then show ?thesis using a r by simp
  qed
qed

lemma round_half_even_nonneg:
  assumes "0 < q" and "0 \<le> p"
  shows "0 \<le> round_half_even p q"
proof -
  have "0 \<le> p div q" using assms by (simp add: pos_imp_zdiv_nonneg_iff)
  then show ?thesis by (simp add: round_half_even_def Let_def)
qed

lemma nearest_double_nonneg:
  assumes "0 < q" and "0 \<le> p"
  shows "0 \<le> fst (nearest_double p q)"
proof (cases "p = 0")
  case True
  then show ?thesis by (simp add: nearest_double_def)
next
  case False
  have "0 \<le> round_half_even (p * pow2 (- snd (nearest_double p q)))
                (q * pow2 (snd (nearest_double p q)))"
    using assms pow2_pos [of "snd (nearest_double p q)"] pow2_pos [of "- snd (nearest_double p q)"]
    by (intro round_half_even_nonneg) simp_all
  then show ?thesis using nearest_double_fst [OF False, of q] by simp
qed

text \<open>The relative error of rounding to the nearest double is at most \<open>2 ** -53\<close>.\<close>

lemma nearest_double_error:
  assumes q: "0 < q" and p: "0 \<le> p"
  shows "\<bar>float_value (nearest_double p q) - of_int p / of_int q\<bar>
           \<le> of_int p / of_int q / 2 ^ 53"
proof (cases "p = 0")
  case True
  then show ?thesis by (simp add: nearest_double_def float_value_def)
next
  case False
  then have pp: "0 < p" using p by simp
  define e where "e = snd (nearest_double p q)"
  define m where "m = fst (nearest_double p q)"
  define x where "x = (of_int p :: rat) / of_int q"
  define P where "P = p * pow2 (- e)"
  define Q where "Q = q * pow2 e"
  have fv: "float_value (nearest_double p q) = of_int m * 2 powi e"
    by (simp add: float_value_def m_def e_def)
  have Qpos: "0 < Q" unfolding Q_def using q pow2_pos [of e] by simp
  have Q': "0 < (of_int Q :: rat)" using Qpos by (simp only: of_int_0_less_iff)
  have m: "m = round_half_even P Q"
    unfolding m_def P_def Q_def e_def by (rule nearest_double_fst [OF False])
  have sc: "(of_int P :: rat) / of_int Q = x * 2 powi (- e)"
    unfolding P_def Q_def x_def by (rule scaled_fraction)
  have "\<bar>2 * (m * Q) - 2 * P\<bar> \<le> Q" unfolding m by (rule round_half_even_error [OF Qpos])
  then have "(of_int \<bar>2 * (m * Q) - 2 * P\<bar> :: rat) \<le> of_int Q" by (simp only: of_int_le_iff)
  then have "\<bar>2 * (of_int m * of_int Q) - 2 * (of_int P :: rat)\<bar> \<le> of_int Q" by simp
  then have "\<bar>2 * (of_int m * of_int Q) - 2 * (of_int P :: rat)\<bar> / of_int Q \<le> 1"
    using Q' by (simp add: pos_divide_le_eq)
  moreover have "\<bar>2 * (of_int m * of_int Q) - 2 * (of_int P :: rat)\<bar> / of_int Q
                   = \<bar>2 * of_int m - 2 * (of_int P / of_int Q)\<bar>"
  proof -
    have "\<bar>2 * (of_int m * of_int Q) - 2 * (of_int P :: rat)\<bar> / of_int Q
            = \<bar>(2 * (of_int m * of_int Q) - 2 * (of_int P :: rat)) / of_int Q\<bar>"
      using Q' by simp
    also have "(2 * (of_int m * of_int Q) - 2 * (of_int P :: rat)) / of_int Q
                 = 2 * of_int m - 2 * (of_int P / of_int Q)"
      using Q' by (simp add: field_simps)
    finally show ?thesis .
  qed
  ultimately have half: "\<bar>2 * of_int m - 2 * (x * 2 powi (- e))\<bar> \<le> 1"
    unfolding sc by simp
  have "\<bar>2 * of_int m - 2 * (x * 2 powi (- e))\<bar> * 2 powi e \<le> 1 * 2 powi e"
    using half by (intro mult_right_mono) simp_all
  moreover have "\<bar>2 * of_int m - 2 * (x * 2 powi (- e))\<bar> * 2 powi e
                   = \<bar>(2 * of_int m - 2 * (x * 2 powi (- e))) * 2 powi e\<bar>"
    by (simp add: abs_mult)
  moreover have "(2 * of_int m - 2 * (x * 2 powi (- e))) * 2 powi e
                   = 2 * (of_int m * 2 powi e - x)"
    by (simp add: algebra_simps power_int_minus)
  ultimately have "\<bar>2 * (of_int m * 2 powi e - x)\<bar> \<le> 2 powi e" by simp
  then have err: "2 * \<bar>of_int m * 2 powi e - x\<bar> \<le> 2 powi e"
    by (simp only: abs_mult abs_numeral)
  have low: "2 ^ 52 * 2 powi e \<le> x"
    unfolding e_def x_def by (rule nearest_double_normal [OF pp q])
  have "2 * \<bar>of_int m * 2 powi e - x\<bar> * 2 ^ 52 \<le> 2 powi e * 2 ^ 52"
    using err by (intro mult_right_mono) simp_all
  with low have "\<bar>of_int m * 2 powi e - x\<bar> * 2 ^ 53 \<le> x" by simp
  then have "\<bar>of_int m * 2 powi e - x\<bar> \<le> x / 2 ^ 53"
    by (simp add: pos_le_divide_eq)
  then show ?thesis unfolding fv x_def .
qed


lemma float_value_nonneg: "0 \<le> fst d \<Longrightarrow> 0 \<le> float_value d"
  by (simp add: float_value_def)

text \<open>
  The coverage is within half a hundredth, and the rounding errors of four float
  operations, of the exact percentage.
\<close>

lemma coverage_error:
  assumes "0 < t" and "n \<le> t"
  shows "\<bar>number_value (py_round2 (coverage_of t n))
           - of_int (int t - int n) / of_int (int t) * 100\<bar> \<le> 1 / 200 + 1 / 10 ^ 12"
proof -
  define a where "a = int t - int n"
  define T where "T = int t"
  define x where "x = (of_int a :: rat) / of_int T"
  define D where "D = float_div a T"
  define Y where "Y = float_mul_int D 100"
  define K where "K = round_half_even (fst Y * 100 * pow2 (snd Y)) (pow2 (- snd Y))"
  define C where "C = nearest_double K 100"
  define d where "d = float_value D"
  define y where "y = float_value Y"
  define c where "c = float_value C"
  define u where "u = (1 :: rat) / 2 ^ 53"
  have a0: "0 \<le> a" and T0: "0 < T" and aT: "a \<le> T"
    using assms by (simp_all add: a_def T_def)
  have x0: "0 \<le> x" and x1: "x \<le> 1"
    using a0 T0 aT by (simp_all add: x_def pos_divide_le_eq)
  have res: "number_value (py_round2 (coverage_of t n)) = c"
    using assms(1) by (simp add: coverage_of_def c_def C_def K_def Y_def D_def a_def T_def
        float_round2_def)
  have "\<bar>d - x\<bar> \<le> x / 2 ^ 53"
    unfolding d_def D_def float_div_def x_def by (rule nearest_double_error [OF T0 a0])
  also have "\<dots> \<le> u" using x1 by (simp add: u_def divide_right_mono)
  finally have e1: "\<bar>d - x\<bar> \<le> u" .
  have D0: "0 \<le> fst D" unfolding D_def float_div_def by (rule nearest_double_nonneg [OF T0 a0])
  have d0: "0 \<le> d" unfolding d_def by (rule float_value_nonneg [OF D0])
  have "(of_int a :: rat) / of_int T \<le> of_int (2 ^ 52) * 2 powi (- 52)"
    using x1 by (simp add: x_def power_int_minus)
  from float_div_le [OF T0 this] have d1: "d \<le> 1"
    unfolding d_def D_def by (simp add: power_int_minus)
  have p0: "0 \<le> fst D * 100" using D0 by simp
  have yv: "y = float_value (nearest_double (fst D * 100) 1) * 2 powi (snd D)"
    unfolding y_def Y_def by (rule float_mul_int_value)
  have "\<bar>float_value (nearest_double (fst D * 100) 1) - of_int (fst D * 100) / of_int 1\<bar>
          \<le> of_int (fst D * 100) / of_int 1 / 2 ^ 53"
    by (rule nearest_double_error [OF _ p0]) simp
  then have "\<bar>float_value (nearest_double (fst D * 100) 1) - of_int (fst D) * 100\<bar> * 2 powi (snd D)
          \<le> of_int (fst D) * 100 / 2 ^ 53 * 2 powi (snd D)"
    by (intro mult_right_mono) simp_all
  moreover have "\<bar>float_value (nearest_double (fst D * 100) 1) - of_int (fst D) * 100\<bar> * 2 powi (snd D)
          = \<bar>y - 100 * d\<bar>"
  proof -
    have "\<bar>float_value (nearest_double (fst D * 100) 1) - of_int (fst D) * 100\<bar> * 2 powi (snd D)
            = \<bar>(float_value (nearest_double (fst D * 100) 1) - of_int (fst D) * 100) * 2 powi (snd D)\<bar>"
      by (simp add: abs_mult)
    also have "(float_value (nearest_double (fst D * 100) 1) - of_int (fst D) * 100) * 2 powi (snd D)
            = y - 100 * d"
      unfolding yv d_def float_value_def by (simp add: algebra_simps)
    finally show ?thesis .
  qed
  moreover have "of_int (fst D) * 100 / 2 ^ 53 * 2 powi (snd D) = 100 * d * u"
    unfolding d_def float_value_def u_def by simp
  ultimately have "\<bar>y - 100 * d\<bar> \<le> 100 * d * u" by simp
  also have "\<dots> \<le> 100 * u" using d1 by (simp add: u_def)
  finally have e2: "\<bar>y - 100 * d\<bar> \<le> 100 * u" .
  have Y0: "0 \<le> fst Y"
  proof -
    have "0 \<le> fst (nearest_double (fst D * 100) 1)"
      by (rule nearest_double_nonneg [OF _ p0]) simp
    then show ?thesis unfolding Y_def float_mul_int_def by (auto split: prod.split)
  qed
  have "d * of_int 100 \<le> of_int 7036874417766400 * 2 powi (- 46)"
    using d1 by (simp add: power_int_minus)
  from float_mul_int_le [OF this [unfolded d_def]] have y1: "y \<le> 100"
    unfolding y_def Y_def by (simp add: power_int_minus)
  define Q where "Q = pow2 (- snd Y)"
  have Q0: "0 < Q" unfolding Q_def by (rule pow2_pos)
  have Q': "0 < (of_int Q :: rat)" using Q0 by (simp only: of_int_0_less_iff)
  have P: "(of_int (fst Y * 100 * pow2 (snd Y)) :: rat) = y * 100 * of_int Q"
    unfolding y_def Q_def by (rule hundredths_ratio)
  have "\<bar>2 * (K * Q) - 2 * (fst Y * 100 * pow2 (snd Y))\<bar> \<le> Q"
    unfolding K_def Q_def by (rule round_half_even_error [OF pow2_pos])
  then have "(of_int \<bar>2 * (K * Q) - 2 * (fst Y * 100 * pow2 (snd Y))\<bar> :: rat) \<le> of_int Q"
    by (simp only: of_int_le_iff)
  then have "\<bar>2 * (of_int K * of_int Q) - 2 * (of_int (fst Y * 100 * pow2 (snd Y)) :: rat)\<bar>
               \<le> of_int Q"
    by (simp only: of_int_abs of_int_diff of_int_mult of_int_numeral)
  then have "\<bar>(2 * of_int K - 200 * y) * of_int Q\<bar> \<le> (of_int Q :: rat)"
    unfolding P by (simp add: algebra_simps)
  then have "\<bar>2 * of_int K - 200 * y\<bar> * of_int Q \<le> 1 * (of_int Q :: rat)"
    using Q' by (simp add: abs_mult)
  then have "\<bar>2 * of_int K - 200 * y\<bar> \<le> 1"
    using Q' by (simp only: mult_le_cancel_right_pos)
  then have e3: "of_int K / 100 - y \<le> 1 / 200" "y - of_int K / 100 \<le> 1 / 200"
    by (simp_all add: abs_le_iff field_simps)
  have K0: "0 \<le> K"
    unfolding K_def using Y0 pow2_pos [of "snd Y"]
    by (intro round_half_even_nonneg pow2_pos) simp
  have "y * 100 \<le> of_int 10000" using y1 by simp
  from hundredths_le [OF this [unfolded y_def]] have K1: "K \<le> 10000" unfolding K_def .
  then have "(of_int K :: rat) \<le> of_int 10000" by (simp only: of_int_le_iff)
  then have K1': "(of_int K :: rat) \<le> 10000" by simp
  have "\<bar>c - of_int K / of_int 100\<bar> \<le> of_int K / of_int 100 / 2 ^ 53"
    unfolding c_def C_def by (rule nearest_double_error [OF _ K0]) simp
  also have "\<dots> \<le> 100 * u" using K1' by (simp add: u_def)
  finally have e4: "\<bar>c - of_int K / 100\<bar> \<le> 100 * u" by simp
  have f1: "d - x \<le> u" "x - d \<le> u" using e1 by (simp_all only: abs_le_iff minus_diff_eq)
  have f2: "y - 100 * d \<le> 100 * u" "100 * d - y \<le> 100 * u"
    using e2 by (simp_all only: abs_le_iff minus_diff_eq)
  have f4: "c - of_int K / 100 \<le> 100 * u" "of_int K / 100 - c \<le> 100 * u"
    using e4 by (simp_all only: abs_le_iff minus_diff_eq)
  have "c - x * 100 \<le> 1 / 200 + 300 * u" and "x * 100 - c \<le> 1 / 200 + 300 * u"
    using f1 f2 e3 f4 by linarith+
  then have "\<bar>c - x * 100\<bar> \<le> 1 / 200 + 300 * u"
    by (simp only: abs_le_iff minus_diff_eq)
  also have "300 * u \<le> 1 / 10 ^ 12" by (simp add: u_def)
  finally show ?thesis unfolding res x_def a_def T_def by simp
qed

text \<open>
  Two values in which the rounding of the floats shows: with 160 slots of which 67 are
  missing the coverage is \<open>58.13\<close> (the exact percentage, \<open>58.125\<close>, would round to
  \<open>58.12\<close>), and with 73 missing it is \<open>54.37\<close> (the exact percentage is \<open>54.375\<close>).
\<close>

lemma coverage_58_13:
  "py_round2 (coverage_of 160 67) = PyFloat (8181070198095217, - 47)
   \<and> py_round2 (coverage_of 160 73) = PyFloat (7651897241879183, - 47)"
  by (simp add: coverage_of_def float_eval)

subsection \<open>Coverage of an extracted schema\<close>

lemma slots_eq_total: "annotatable_slots modules = count_total_items modules"
  by (simp add: annotatable_slots_def function_slots_def count_total_eq)

lemma extracted_schema_assembled:
  assumes "extract_package_types env package_name site pip s = (Returns (Schema sch), s')"
  shows "\<exists>version now. sch = assemble_schema package_name version (ps_modules sch) now"
proof -
  have m: "ps_modules (assemble_schema p v ms n) = ms" for p v ms n
    by (simp add: assemble_schema_def Let_def)
  obtain r s1 where i: "import_module env package_name (with_site site s) = (r, s1)"
    by (cases "import_module env package_name (with_site site s)")
  show ?thesis
  proof (cases r)
    case (Raises e)
    with assms i show ?thesis
      by (cases e) (simp_all add: extract_package_types_def Let_def)
  next
    case main: (Returns main_module)
    show ?thesis
    proof (cases "extract_module_info main_module package_name")
      case (Raises e)
      with assms i main show ?thesis
        by (simp add: extract_package_types_def Let_def)
    next
      case info: (Returns main_info)
      obtain q s2 where l: "(case mod_path main_module of
            None \<Rightarrow> (Returns [main_info], s1)
          | Some package_path \<Rightarrow>
              paths_loop env package_name package_path [main_info] s1) = (q, s2)"
        by (cases "(case mod_path main_module of
            None \<Rightarrow> (Returns [main_info], s1)
          | Some package_path \<Rightarrow>
              paths_loop env package_name package_path [main_info] s1)")
      show ?thesis
      proof (cases q)
        case (Raises e)
        with assms i main info l show ?thesis
          by (simp add: extract_package_types_def Let_def)
      next
        case (Returns ms)
        with assms i main info l
        have "sch = assemble_schema package_name
                 (package_version env main_module package_name pip) ms (utcnow env)"
          by (simp add: extract_package_types_def Let_def)
        then show ?thesis using m by metis
      qed
    qed
  qed
qed

lemma fold_wide_functions:
  "fold (module_step big_module)
      (map (\<lambda>i. (wide_name i, ObjOf (Some ''big'') (IsFunction wide_fn))) js) (fs, cs, ks)
     = (fs @ map (\<lambda>i. the (extract_function_info wide_fn (wide_name i))) js, cs, ks)"
proof (induction js arbitrary: fs)
  case Nil
  show ?case by simp
next
  case (Cons j js)
  have n: "mod_name big_module = ''big''" by (simp add: big_module_def)
  have e: "extract_function_info wide_fn (wide_name j) \<noteq> None"
    by (simp add: extract_function_info_def wide_fn_def)
  then obtain d where d: "extract_function_info wide_fn (wide_name j) = Some d" by blast
  have p: "\<not> py_startswith (wide_name j) ''_''" by (simp add: wide_name_def)
  have "module_step big_module (wide_name j, ObjOf (Some ''big'') (IsFunction wide_fn)) (fs, cs, ks)
          = (fs @ [d], cs, ks)"
    by (simp add: n d p)
  then show ?case using Cons.IH [of "fs @ [d]"] d by simp
qed

lemma wide_desc:
  "fd_params (the (extract_function_info wide_fn n)) \<noteq> []
   \<and> length (fd_params (the (extract_function_info wide_fn n))) = 7
   \<and> fd_returnType (the (extract_function_info wide_fn n)) = KPrimitive ''int''
   \<and> (\<forall>p \<in> set (fd_params (the (extract_function_info wide_fn n))). pd_type p \<noteq> KAny)"
  by (simp add: extract_function_info_def wide_fn_def Let_def hints_get_def param_info_def int_param_def)

lemma big_functions:
  "md_functions (module_info big_module ''big'')
     = map (\<lambda>i. the (extract_function_info wide_fn (wide_name i))) [0..<5000]
       @ [the (extract_function_info run_fn ''h'')]
   \<and> md_classes (module_info big_module ''big'') = []
   \<and> md_name (module_info big_module ''big'') = ''big''"
proof -
  have d: "mod_dir big_module
      = map (\<lambda>i. (wide_name i, ObjOf (Some ''big'') (IsFunction wide_fn))) [0..<5000]
        @ [(''h'', ObjOf (Some ''big'') (IsFunction run_fn))]"
    by (simp add: big_module_def)
  have n: "mod_name big_module = ''big''" by (simp add: big_module_def)
  have h: "extract_function_info run_fn ''h'' \<noteq> None"
    by (simp add: extract_function_info_def run_fn_def)
  then obtain dh where dh: "extract_function_info run_fn ''h'' = Some dh" by blast
  have "fold (module_step big_module) (mod_dir big_module) ([], [], [])
      = (map (\<lambda>i. the (extract_function_info wide_fn (wide_name i))) [0..<5000] @ [dh], [], [])"
    unfolding d fold_append comp_def fold_wide_functions
    by (simp add: n dh del: upt_Suc)
  then show ?thesis by (simp add: module_info_def dh)
qed


lemma missing_func_none:
  assumes "fd_returnType f \<noteq> KAny" and "\<forall>p \<in> set (fd_params f). pd_type p \<noteq> KAny"
  shows "missing_func owner f [] = []"
  using assms by (simp add: missing_func_def Let_def missing_params_filter filter_empty_conv)

lemma big_extraction:
  "extract_package_types big_env ''big'' ''/site'' None sys0
     = (Returns (Schema (assemble_schema ''big'' ''3.1'' [module_info big_module ''big'']
                           ''2024-05-01T12:00:00'')),
        sys0\<lparr>sys_path := [''/site'', ''/usr/lib/python3'']\<rparr>)"
proof -
  have v: "mod_version big_module = Some ''3.1''" and p: "mod_path big_module = None"
    and w: "mod_walk_raises big_module = None"
    by (simp_all add: big_module_def)
  show ?thesis
    by (simp add: extract_package_types_def extract_module_info_def with_site_def big_env_def
        sys0_def Let_def package_version_def v p w)
qed

lemma big_total: "count_total_items [module_info big_module ''big''] = 40001"
proof -
  have h: "fd_params (the (extract_function_info run_fn ''h'')) = []"
    by (simp add: extract_function_info_def run_fn_def Let_def)
  show ?thesis
    unfolding count_total_eq
    by (simp add: big_functions wide_desc h comp_def sum_list_triv del: upt_Suc)
qed

lemma big_missing:
  "count_missing_annotations [module_info big_module ''big''] = [''big.h (return type)'']"
proof -
  have w: "missing_func ''big'' (the (extract_function_info wide_fn n)) [] = []" for n
    by (rule missing_func_none) (simp_all add: wide_desc)
  have h: "missing_func ''big'' (the (extract_function_info run_fn ''h'')) [] = [''big.h (return type)'']"
    by (simp add: extract_function_info_def run_fn_def Let_def hints_get_def missing_func_def)
  show ?thesis
    unfolding count_missing_eq
    by (simp add: missing_module_eq big_functions w h comp_def del: upt_Suc)
qed

text \<open>
  Claim C1, as the specification words its last part: the coverage is strictly less than
  100 whenever \<open>missingAnnotations\<close> is not empty. The package \<open>big\<close> has 40001 slots of
  which one is missing, and \<open>round(40000 / 40001 * 100, 2)\<close> is the float \<open>100.0\<close>.
\<close>

theorem rounded_coverage_counterexample:
  "(case fst (extract_package_types big_env ''big'' ''/site'' None sys0) of
      Returns (Schema sch) \<Rightarrow>
        ps_missingAnnotations sch = [''big.h (return type)'']
        \<and> annotatable_slots (ps_modules sch) = 40001
        \<and> ps_typeAnnotationCoverage sch = PyFloat (7036874417766400, - 46)
        \<and> number_value (ps_typeAnnotationCoverage sch) = 100
    | _ \<Rightarrow> False)"
proof -
  have c: "py_round2 (coverage_of 40001 (Suc 0)) = PyFloat (7036874417766400, - 46)"
    by (simp add: coverage_of_def float_eval)
  have v: "float_value (7036874417766400, - 46) = 100"
    by (simp add: float_value_def power_int_minus)
  show ?thesis
    by (simp add: big_extraction assemble_schema_def Let_def slots_eq_total big_total big_missing c v)
qed

text \<open>
  Claim C1, amended. In every extracted schema \<open>missingAnnotations\<close> is the list that
  \<open>count_missing_annotations\<close> builds and is no longer than the total, which is one slot
  for the return and one for each parameter of every function and method of every
  module. The coverage is the integer 100 when the total is 0, and otherwise the float
  \<open>round((total - missingCount) / total * 100, 2)\<close>: the quotient, its product with 100
  and the number of hundredths are each rounded to the nearest float. Its value is
  within \<open>0.005 + 10 ** -12\<close> of the exact percentage; it is 100 when nothing is
  missing, never more than 100, and strictly less than 100 when something is missing
  and the total is at most 19999 times the number of missing annotations.
\<close>

theorem coverage_accounting:
  assumes "extract_package_types env package_name site pip s = (Returns (Schema sch), s')"
  shows "ps_missingAnnotations sch = count_missing_annotations (ps_modules sch)
       \<and> length (ps_missingAnnotations sch) \<le> annotatable_slots (ps_modules sch)
       \<and> ps_typeAnnotationCoverage sch =
           (if annotatable_slots (ps_modules sch) = 0 then PyInt 100
            else PyFloat (float_round2 (float_mul_int
                   (float_div (int (annotatable_slots (ps_modules sch))
                                 - int (length (ps_missingAnnotations sch)))
                              (int (annotatable_slots (ps_modules sch)))) 100)))
       \<and> (annotatable_slots (ps_modules sch) \<noteq> 0 \<longrightarrow>
            \<bar>number_value (ps_typeAnnotationCoverage sch)
               - of_int (int (annotatable_slots (ps_modules sch))
                           - int (length (ps_missingAnnotations sch)))
                 / of_int (int (annotatable_slots (ps_modules sch))) * 100\<bar>
              \<le> 1 / 200 + 1 / 10 ^ 12)
       \<and> (annotatable_slots (ps_modules sch) = 0 \<longrightarrow>
            number_value (ps_typeAnnotationCoverage sch) = 100)
       \<and> (ps_missingAnnotations sch = [] \<longrightarrow>
            number_value (ps_typeAnnotationCoverage sch) = 100)
       \<and> number_value (ps_typeAnnotationCoverage sch) \<le> 100
       \<and> (ps_missingAnnotations sch \<noteq> []
            \<and> annotatable_slots (ps_modules sch) \<le> 19999 * length (ps_missingAnnotations sch)
           \<longrightarrow> number_value (ps_typeAnnotationCoverage sch) < 100)"
proof -
  obtain version now where a: "sch = assemble_schema package_name version (ps_modules sch) now"
    using extracted_schema_assembled [OF assms] by blast
  define ms where "ms = ps_modules sch"
  define t where "t = count_total_items ms"
  define k where "k = length (count_missing_annotations ms)"
  have mi: "ps_missingAnnotations sch = count_missing_annotations ms"
    unfolding ms_def by (subst a) (simp add: assemble_schema_def Let_def)
  have cv: "ps_typeAnnotationCoverage sch = py_round2 (coverage_of t k)"
    unfolding ms_def t_def k_def by (subst a) (simp add: assemble_schema_def Let_def)
  have st: "annotatable_slots ms = t" unfolding t_def by (rule slots_eq_total)
  have le: "k \<le> t" unfolding k_def t_def by (rule missing_le_total)
  have f: "ps_typeAnnotationCoverage sch =
       (if t = 0 then PyInt 100
        else PyFloat (float_round2 (float_mul_int (float_div (int t - int k) (int t)) 100)))"
    unfolding cv by (simp add: coverage_of_def)
  have er: "\<bar>number_value (ps_typeAnnotationCoverage sch)
               - of_int (int t - int k) / of_int (int t) * 100\<bar> \<le> 1 / 200 + 1 / 10 ^ 12"
    if "t \<noteq> 0"
  proof -
    from that have "0 < t" by simp
    from coverage_error [OF this le] show ?thesis unfolding cv .
  qed
  have z: "number_value (ps_typeAnnotationCoverage sch) = 100" if "t = 0"
    unfolding cv that by (rule coverage_none)
  have e: "number_value (ps_typeAnnotationCoverage sch) = 100" if "k = 0"
    unfolding cv that by (rule coverage_full)
  have u: "number_value (ps_typeAnnotationCoverage sch) \<le> 100"
    unfolding cv by (rule coverage_le_100)
  have l: "number_value (ps_typeAnnotationCoverage sch) < 100" if "0 < k" and "t \<le> 19999 * k"
  proof -
    from that(1) le have "0 < t" by simp
    from coverage_less_100 [OF that(1) this that(2)] show ?thesis unfolding cv .
  qed
  have k0: "ps_missingAnnotations sch = [] \<longleftrightarrow> k = 0"
    unfolding mi k_def by simp
  have kl: "length (ps_missingAnnotations sch) = k" unfolding mi k_def ..
  show ?thesis
    unfolding ms_def [symmetric] st kl
    using mi le f er z e u l k0 by auto
qed

lemma geo_extraction:
  "extract_package_types geo_env ''geo'' ''/site'' None sys0
     = (Returns (Schema (assemble_schema ''geo'' ''1.0'' [module_info geo_module ''geo'']
                           ''2024-05-01T12:00:00'')),
        sys0\<lparr>sys_path := [''/site'', ''/usr/lib/python3'']\<rparr>)"
proof -
  have v: "mod_version geo_module = Some ''1.0''" and p: "mod_path geo_module = None"
    and w: "mod_walk_raises geo_module = None"
    by (simp_all add: geo_module_def)
  show ?thesis
    by (simp add: extract_package_types_def extract_module_info_def with_site_def geo_env_def
        sys0_def Let_def package_version_def v p w)
qed

lemma geo_info:
  "module_info geo_module ''geo'' =
     \<lparr>md_name = ''geo'', md_path = ''/site/geo.py'', md_functions = [],
      md_classes =
        [\<lparr>cd_name = ''Point'',
          cd_constructor =
            Some \<lparr>fd_name = ''__init__'',
                  fd_params = [\<lparr>pd_name = ''x'', pd_type = KPrimitive ''int'', pd_optional = False, pd_default = None\<rparr>,
                               \<lparr>pd_name = ''y'', pd_type = KAny, pd_optional = False, pd_default = None\<rparr>],
                  fd_returnType = KAny, fd_docstring = None, fd_isAsync = False, fd_isMethod = True\<rparr>,
          cd_methods =
            [\<lparr>fd_name = ''__init__'',
              fd_params = [\<lparr>pd_name = ''x'', pd_type = KPrimitive ''int'', pd_optional = False, pd_default = None\<rparr>,
                           \<lparr>pd_name = ''y'', pd_type = KAny, pd_optional = False, pd_default = None\<rparr>],
              fd_returnType = KAny, fd_docstring = None, fd_isAsync = False, fd_isMethod = True\<rparr>,
             \<lparr>fd_name = ''build'',
              fd_params = [\<lparr>pd_name = ''cls'', pd_type = KAny, pd_optional = False, pd_default = None\<rparr>,
                           \<lparr>pd_name = ''n'', pd_type = KPrimitive ''int'', pd_optional = True, pd_default = Some ''0''\<rparr>],
              fd_returnType = KAny, fd_docstring = None, fd_isAsync = False, fd_isMethod = True\<rparr>],
          cd_properties = [], cd_docstring = None, cd_bases = []\<rparr>],
      md_constants = [], md_docstring = None\<rparr>"
  by (simp add: module_info_def geo_module_def module_all_def
      extract_class_info_def point_cls_def point_init_def build_fn_def Let_def
      extract_function_info_def mark_method_def hints_get_def param_info_def)

lemma geo_total: "count_total_items [module_info geo_module ''geo''] = 6"
  unfolding geo_info by (simp add: count_total_items_def total_module_def total_func_def)

lemma geo_missing:
  "count_missing_annotations [module_info geo_module ''geo''] =
     [''geo.Point.__init__ (return type)'', ''geo.Point.__init__.y'',
      ''geo.Point.build (return type)'', ''geo.Point.build.cls'']"
  unfolding geo_info
  by (simp add: count_missing_annotations_def missing_module_def missing_class_def
      missing_func_def Let_def)


theorem coverage_accounting_witness:
  "(case fst (extract_package_types geo_env ''geo'' ''/site'' None sys0) of
      Returns (Schema sch) \<Rightarrow>
        annotatable_slots (ps_modules sch) = 6
        \<and> ps_missingAnnotations sch =
            [''geo.Point.__init__ (return type)'', ''geo.Point.__init__.y'',
             ''geo.Point.build (return type)'', ''geo.Point.build.cls'']
        \<and> ps_typeAnnotationCoverage sch = PyFloat (4690780486883082, - 47)
        \<and> number_value (ps_typeAnnotationCoverage sch) < 100
    | _ \<Rightarrow> False)"
proof -
  define sch where "sch = assemble_schema ''geo'' ''1.0'' [module_info geo_module ''geo'']
                           ''2024-05-01T12:00:00''"
  have x: "extract_package_types geo_env ''geo'' ''/site'' None sys0
     = (Returns (Schema sch), sys0\<lparr>sys_path := [''/site'', ''/usr/lib/python3'']\<rparr>)"
    unfolding sch_def by (rule geo_extraction)
  have ms: "ps_modules sch = [module_info geo_module ''geo'']"
    by (simp add: sch_def assemble_schema_def Let_def)
  have sl: "annotatable_slots (ps_modules sch) = 6"
    unfolding ms slots_eq_total by (rule geo_total)
  note acc = coverage_accounting [OF x]
  have mi: "ps_missingAnnotations sch =
            [''geo.Point.__init__ (return type)'', ''geo.Point.__init__.y'',
             ''geo.Point.build (return type)'', ''geo.Point.build.cls'']"
    using acc [THEN conjunct1] unfolding ms geo_missing .
  have ln: "length (ps_missingAnnotations sch) = 4" unfolding mi by simp
  have r: "float_round2 (float_mul_int (float_div 2 6) 100) = (4690780486883082, - 47)"
    by (simp add: float_eval)
  have cv: "ps_typeAnnotationCoverage sch = PyFloat (4690780486883082, - 47)"
    using acc [THEN conjunct2, THEN conjunct2, THEN conjunct1] unfolding sl ln
    by (simp add: r)
  have h: "ps_missingAnnotations sch \<noteq> []
            \<and> annotatable_slots (ps_modules sch) \<le> 19999 * length (ps_missingAnnotations sch)"
    unfolding sl ln using mi by simp
  have lt: "number_value (ps_typeAnnotationCoverage sch) < 100"
    by (rule acc [THEN conjunct2, THEN conjunct2, THEN conjunct2, THEN conjunct2,
          THEN conjunct2, THEN conjunct2, THEN conjunct2, rule_format, OF h])
  show ?thesis unfolding x using sl mi cv lt by simp
qed

subsection \<open>Failure of the top-level import\<close>

text \<open>
  Claim C2, as the specification words it: whenever the import of the package fails, the
  result is the error dictionary and nothing is raised. The package \<open>crash\<close> fails to
  import with a \<open>SyntaxError\<close>, which is not an \<open>ImportError\<close>, and the exception leaves
  \<open>extract_package_types\<close>.
\<close>

theorem syntax_error_counterexample:
  "fst (import_module crash_env ''crash'' (with_site ''/site'' sys0))
     = Raises (OtherException ''invalid syntax (__init__.py, line 1)'')
   \<and> fst (extract_package_types crash_env ''crash'' ''/site'' None sys0)
     = Raises (OtherException ''invalid syntax (__init__.py, line 1)'')"
  by (simp add: extract_package_types_def crash_env_def sys0_def with_site_def Let_def)

text \<open>
  Claim C2, amended. Whenever the import of the named package raises \<open>ImportError\<close>, the
  result is the dictionary \<open>{"error": "Failed to import <name>: <message>"}\<close>, which has
  no other field, and no exception is raised.
\<close>

theorem import_error_result:
  assumes "import_module env package_name (with_site site s) = (Raises (ImportError msg), s1)"
  shows "extract_package_types env package_name site pip s
           = (Returns (ErrorResult (''Failed to import '' @ package_name @ '': '' @ msg)), s1)"
  using assms by (simp add: extract_package_types_def Let_def)

theorem import_error_result_witness:
  "import_module geo_env ''nope'' (with_site ''/site'' sys0)
     = (Raises (ImportError (''No module named '' @ py_quote ''nope'')), with_site ''/site'' sys0)
   \<and> extract_package_types geo_env ''nope'' ''/site'' (Some ''python-nope'') sys0
     = (Returns (ErrorResult (''Failed to import nope: No module named '' @ py_quote ''nope'')),
        with_site ''/site'' sys0)"
proof -
  have i: "import_module geo_env ''nope'' (with_site ''/site'' sys0)
     = (Raises (ImportError (''No module named '' @ py_quote ''nope'')), with_site ''/site'' sys0)"
    by (simp add: geo_env_def not_found_def)
  from import_error_result [OF i, of "Some ''python-nope''"] i show ?thesis by simp
qed

subsection \<open>The streams around a submodule import\<close>

lemma try_submodule_state:
  "snd (try_submodule env name modules s)
     = (snd (import_module env name (redirected s)))\<lparr>sys_stdout := sys_stdout s, sys_stderr := sys_stderr s\<rparr>"
  by (simp add: try_submodule_def Let_def split: prod.splits outcome.splits)

lemma try_submodule_streams:
  "sys_stdout (snd (try_submodule env name modules s)) = sys_stdout s
   \<and> sys_stderr (snd (try_submodule env name modules s)) = sys_stderr s"
  by (simp add: try_submodule_state)

lemma files_loop_streams:
  "sys_stdout (snd (files_loop env package_name files modules s)) = sys_stdout s
   \<and> sys_stderr (snd (files_loop env package_name files modules s)) = sys_stderr s"
proof (induction files arbitrary: modules s)
  case Nil
  show ?case by simp
next
  case (Cons f files)
  let ?t = "try_submodule env (package_name @ ''.'' @ file_stem f) modules s"
  show ?case
  proof (cases "py_startswith (file_name f) ''_''")
    case True
    then show ?thesis using Cons.IH by simp
  next
    case False
    obtain r s' where t: "?t = (r, s')" by (cases ?t)
    have st: "sys_stdout s' = sys_stdout s \<and> sys_stderr s' = sys_stderr s"
      using try_submodule_streams [of env "package_name @ ''.'' @ file_stem f" modules s] t by simp
    show ?thesis
    proof (cases r)
      case (Returns ms)
      then show ?thesis using False t st Cons.IH [of ms s'] by simp
    next
      case (Raises e)
      then show ?thesis using False t st by simp
    qed
  qed
qed

lemma paths_loop_streams:
  "sys_stdout (snd (paths_loop env package_name paths modules s)) = sys_stdout s
   \<and> sys_stderr (snd (paths_loop env package_name paths modules s)) = sys_stderr s"
proof (induction paths arbitrary: modules s)
  case Nil
  show ?case by simp
next
  case (Cons p paths)
  let ?t = "files_loop env package_name (glob_py env p) modules s"
  show ?case
  proof (cases "path_exists env p")
    case False
    then show ?thesis using Cons.IH by simp
  next
    case True
    obtain r s' where t: "?t = (r, s')" by (cases ?t)
    have st: "sys_stdout s' = sys_stdout s \<and> sys_stderr s' = sys_stderr s"
      using files_loop_streams [of env package_name "glob_py env p" modules s] t by simp
    show ?thesis
    proof (cases r)
      case (Returns ms)
      then show ?thesis using True t st Cons.IH [of ms s'] by simp
    next
      case (Raises e)
      then show ?thesis using True t st by simp
    qed
  qed
qed


text \<open>
  Claim C8. Around every submodule import the two streams are bound to the buffer, and
  whatever the import does (it returns, it raises an exception that is absorbed, or it
  raises one that leaves the assembler) the state after the attempt is the state the
  import left with both streams bound again to what they were before. So the streams
  are the same after the attempt, after the loop over the files of a directory and
  after the loop over the directories.
\<close>

theorem streams_restored:
  "snd (try_submodule env name modules s)
     = (snd (import_module env name (redirected s)))\<lparr>sys_stdout := sys_stdout s, sys_stderr := sys_stderr s\<rparr>
   \<and> sys_stdout (redirected s) = StringIO \<and> sys_stderr (redirected s) = StringIO
   \<and> sys_stdout (snd (try_submodule env name modules s)) = sys_stdout s
   \<and> sys_stderr (snd (try_submodule env name modules s)) = sys_stderr s
   \<and> sys_stdout (snd (files_loop env package_name files modules s)) = sys_stdout s
   \<and> sys_stderr (snd (files_loop env package_name files modules s)) = sys_stderr s
   \<and> sys_stdout (snd (paths_loop env package_name paths modules s)) = sys_stdout s
   \<and> sys_stderr (snd (paths_loop env package_name paths modules s)) = sys_stderr s"
  using try_submodule_state [of env name modules s] try_submodule_streams [of env name modules s]
    files_loop_streams [of env package_name files modules s]
    paths_loop_streams [of env package_name paths modules s]
  by (simp add: redirected_def)

theorem streams_restored_witness:
  "import_module pkg_env ''pkg.broken'' (redirected sys0)
     = (Raises (OtherException ''boom''), (redirected sys0)\<lparr>sys_stdout := Console 9\<rparr>)
   \<and> try_submodule pkg_env ''pkg.broken'' [] sys0 = (Returns [], sys0)
   \<and> try_submodule interrupt_env ''pkg.core'' [] sys0
       = (Raises (OtherBaseException ''KeyboardInterrupt''), sys0)"
proof -
  have i: "import_module pkg_env ''pkg.broken'' (redirected sys0)
     = (Raises (OtherException ''boom''), (redirected sys0)\<lparr>sys_stdout := Console 9\<rparr>)"
    by (simp add: pkg_env_def pkg_import_def)
  have j: "import_module interrupt_env ''pkg.core'' (redirected sys0)
     = (Raises (OtherBaseException ''KeyboardInterrupt''),
        (redirected sys0)\<lparr>sys_stdout := Console 9, sys_stderr := Console 9\<rparr>)"
    by (simp add: interrupt_env_def)
  have a: "fst (try_submodule pkg_env ''pkg.broken'' [] sys0) = Returns []"
    by (simp add: try_submodule_def i Let_def absorbed_def)
  have b: "fst (try_submodule interrupt_env ''pkg.core'' [] sys0)
       = Raises (OtherBaseException ''KeyboardInterrupt'')"
    by (simp add: try_submodule_def j Let_def absorbed_def)
  have c: "snd (try_submodule pkg_env ''pkg.broken'' [] sys0) = sys0"
    using streams_restored [of pkg_env "''pkg.broken''" "[]" sys0, THEN conjunct1, unfolded i]
    by (simp add: redirected_def sys0_def)
  have d: "snd (try_submodule interrupt_env ''pkg.core'' [] sys0) = sys0"
    using streams_restored [of interrupt_env "''pkg.core''" "[]" sys0, THEN conjunct1, unfolded j]
    by (simp add: redirected_def sys0_def)
  from a c have "try_submodule pkg_env ''pkg.broken'' [] sys0 = (Returns [], sys0)"
    by (simp add: prod_eq_iff)
  moreover from b d have "try_submodule interrupt_env ''pkg.core'' [] sys0
       = (Raises (OtherBaseException ''KeyboardInterrupt''), sys0)"
    by (simp add: prod_eq_iff)
  ultimately show ?thesis using i by simp
qed

subsection \<open>Submodules that fail to import\<close>

lemma try_submodule_cases:
  assumes "import_module env name (redirected s) = (r, s2)"
  shows "try_submodule env name modules s =
     (case r of
        Returns submodule \<Rightarrow>
          (case extract_module_info submodule name of
             Returns sub_info \<Rightarrow>
               Returns (if md_functions sub_info \<noteq> [] \<or> md_classes sub_info \<noteq> []
                        then modules @ [sub_info] else modules)
           | Raises e \<Rightarrow> if absorbed e then Returns modules else Raises e)
      | Raises e \<Rightarrow> if absorbed e then Returns modules else Raises e,
      s2\<lparr>sys_stdout := sys_stdout s, sys_stderr := sys_stderr s\<rparr>)"
  using assms by (simp add: try_submodule_def Let_def split: outcome.splits)



text \<open>
  A failure of the inspection: inside the attempt on a submodule it is absorbed like a
  failure of the import and the submodule is left out; for the main module, which is
  inspected outside any \<open>try\<close>, it leaves \<open>extract_package_types\<close>.
\<close>

lemma submodule_walk_dropped:
  assumes "fst (import_module env name (redirected s)) = Returns submodule"
    and "mod_walk_raises submodule = Some e" and "absorbed e"
  shows "fst (try_submodule env name modules s) = Returns modules"
proof -
  obtain r s2 where i: "import_module env name (redirected s) = (r, s2)"
    by (cases "import_module env name (redirected s)")
  with assms(1) have "r = Returns submodule" by simp
  then show ?thesis
    using assms(2,3) by (simp add: try_submodule_cases [OF i] extract_module_info_def)
qed

lemma main_walk_escapes:
  assumes "import_module env package_name (with_site site s) = (Returns main_module, s1)"
    and "mod_walk_raises main_module = Some e"
  shows "extract_package_types env package_name site pip s = (Raises e, s1)"
  using assms by (simp add: extract_package_types_def extract_module_info_def Let_def)








end
